theory Spec2Isabelle
  imports Main
begin

section \<open>Dates\<close>

text \<open>
  A JavaScript \<^verbatim>\<open>Date\<close> holds a time value in milliseconds, or NaN (an Invalid Date).
  Every local-time operation the program uses (\<^verbatim>\<open>getDate\<close>/\<^verbatim>\<open>setDate\<close>,
  \<^verbatim>\<open>setHours(0,0,0,0)\<close>, \<^verbatim>\<open>new Date(y, m, d)\<close>) is read on the local time axis:
  a valid date is the number of milliseconds since local midnight of the epoch day. The
  local zone is taken to have a fixed offset to UTC, so every local day has
  \<open>msPerDay\<close> milliseconds and \<^verbatim>\<open>getTime()\<close> differences and comparisons are those of the
  local values. Daylight-saving shifts are outside the model, with one exception:
  \<^verbatim>\<open>getDaysOverdue\<close> divides the difference of the time values of two local midnights,
  which a daylight-saving shift between them changes by an hour. There the time value
  (\<^verbatim>\<open>getTime()\<close>) of a local value is a parameter \<open>timeValue\<close>, a function of the zone; for
  a zone with a fixed offset it is the local value plus a constant.
\<close>

datatype jsdate = Invalid_Date | Valid int

definition msPerDay :: int where
  "msPerDay = 1000 * 60 * 60 * 24"

text \<open>\<^verbatim>\<open>d.setHours(0, 0, 0, 0)\<close> and \<^verbatim>\<open>new Date(d.getFullYear(), d.getMonth(), d.getDate())\<close>:
  local midnight of the day of \<open>t\<close>.\<close>

definition startOfDay :: "int \<Rightarrow> int" where
  "startOfDay t = t - t mod msPerDay"

text \<open>\<^verbatim>\<open>d.setDate(d.getDate() + n)\<close>: the same local time of day, \<open>n\<close> calendar days on.\<close>

definition addDays :: "int \<Rightarrow> int \<Rightarrow> int" where
  "addDays t n = t + n * msPerDay"

text \<open>The calendar day of a time value, as a day number.\<close>

definition dayOf :: "int \<Rightarrow> int" where
  "dayOf t = t div msPerDay"

section \<open>The review scheduler\<close>

datatype difficulty = easy | medium | hard

definition intervals :: "int list" where
  "intervals = [1, 3, 7, 14, 30, 90]"

text \<open>\<^verbatim>\<open>intervals[i]\<close>: \<^verbatim>\<open>undefined\<close> (here \<open>None\<close>) outside the array.\<close>

definition interval_at :: "int \<Rightarrow> int option" where
  "interval_at i =
     (if 0 \<le> i \<and> i < int (length intervals) then Some (intervals ! nat i) else None)"

text \<open>
  \<^verbatim>\<open>SpacedRepetitionService.calculateNextReview\<close> of the backend; \<open>now\<close> is the value of
  \<^verbatim>\<open>new Date()\<close>. \<^verbatim>\<open>setDate(NaN)\<close> gives an Invalid Date, which \<^verbatim>\<open>setHours\<close> keeps.
\<close>

definition calculateNextReview :: "int \<Rightarrow> int \<Rightarrow> difficulty \<Rightarrow> jsdate" where
  "calculateNextReview now reviewCount d =
     (let intervalIndex = min reviewCount (int (length intervals) - 1);
          intervalIndex = (if d = hard then 0 else intervalIndex)
      in case interval_at intervalIndex of
           None \<Rightarrow> Invalid_Date
         | Some daysToAdd \<Rightarrow> Valid (startOfDay (addDays now daysToAdd)))"

text \<open>
  \<^verbatim>\<open>calculateNextReview\<close> of the frontend's \<^verbatim>\<open>utils/spacedRepetition\<close>: the same table
  and index, without the \<^verbatim>\<open>setHours(0, 0, 0, 0)\<close>.
\<close>

definition calculateNextReview_frontend :: "int \<Rightarrow> int \<Rightarrow> difficulty \<Rightarrow> jsdate" where
  "calculateNextReview_frontend now reviewCount d =
     (let intervalIndex = min reviewCount (int (length intervals) - 1);
          intervalIndex = (if d = hard then 0 else intervalIndex)
      in case interval_at intervalIndex of
           None \<Rightarrow> Invalid_Date
         | Some daysToAdd \<Rightarrow> Valid (addDays now daysToAdd))"

section \<open>Questions and the question store\<close>

datatype status = not_started | completed | under_review | needs_attention

datatype leetcode_difficulty = Easy | Medium | Hard

text \<open>
  The \<^verbatim>\<open>Question\<close> interface. Optional fields are options (\<open>None\<close> is
  \<^verbatim>\<open>undefined\<close>); the three dates are held as strings, as in the source. The fields
  \<^verbatim>\<open>id\<close> and \<^verbatim>\<open>notes\<close> carry a suffix.
\<close>

record question =
  id_q :: int
  name :: string
  category :: string
  leetcodeUrl :: string
  leetcodeDifficulty :: "leetcode_difficulty option"
  status :: status
  firstCompleted :: "string option"
  lastReviewed :: "string option"
  nextReview :: "string option"
  reviewCount :: int
  difficultyHistory :: "difficulty list"
  notes_q :: "string option"

text \<open>The request interfaces; their fields carry a prefix, the field names being taken.\<close>

record CreateQuestionRequest =
  c_name :: string
  c_category :: string
  c_leetcodeUrl :: string
  c_leetcodeDifficulty :: "leetcode_difficulty option"
  c_notes :: "string option"

record UpdateQuestionRequest =
  u_name :: "string option"
  u_category :: "string option"
  u_leetcodeUrl :: "string option"
  u_notes :: "string option"

record ReviewRequest =
  r_difficulty :: difficulty
  r_notes :: "string option"

text \<open>The state of \<^verbatim>\<open>QuestionService\<close>: the array of questions and the id counter.
  Writing the CSV file (\<^verbatim>\<open>saveQuestions\<close>) is taken to succeed and is not part of the
  state.\<close>

record store =
  questions :: "question list"
  nextId :: int

datatype error = NotFound | DuplicateUrl | RangeError

text \<open>JavaScript truthiness of an optional string: \<^verbatim>\<open>undefined\<close> and \<^verbatim>\<open>''\<close> are falsy.\<close>

fun truthy :: "string option \<Rightarrow> bool" where
  "truthy None = False"
| "truthy (Some s) = (s \<noteq> [])"

text \<open>\<^verbatim>\<open>a || b\<close> on optional strings.\<close>

definition or_else :: "string option \<Rightarrow> string option \<Rightarrow> string option" where
  "or_else a b = (if truthy a then a else b)"

text \<open>\<^verbatim>\<open>Array.prototype.findIndex\<close>; \<open>None\<close> is the result -1.\<close>

fun findIndex :: "('a \<Rightarrow> bool) \<Rightarrow> 'a list \<Rightarrow> nat option" where
  "findIndex P [] = None"
| "findIndex P (x # xs) = (if P x then Some 0 else map_option Suc (findIndex P xs))"


text \<open>\<^verbatim>\<open>Math.max(...ids, 0)\<close>.\<close>

definition Math_max_0 :: "int list \<Rightarrow> int" where
  "Math_max_0 ids = foldr max ids 0"

text \<open>\<^verbatim>\<open>initialize\<close>, on the questions read from the CSV file; \<^verbatim>\<open>reloadFromFile\<close>, when it
  is not suppressed, does the same.\<close>

definition initialize :: "question list \<Rightarrow> store" where
  "initialize loaded =
     \<lparr>questions = loaded, nextId = Math_max_0 (map id_q loaded) + 1\<rparr>"

definition getQuestionById :: "int \<Rightarrow> store \<Rightarrow> question option" where
  "getQuestionById i s = find (\<lambda>q. id_q q = i) (questions s)"

definition createQuestion ::
  "CreateQuestionRequest \<Rightarrow> store \<Rightarrow> (error + question) \<times> store" where
  "createQuestion data s =
     (case find (\<lambda>q. leetcodeUrl q = c_leetcodeUrl data) (questions s) of
        Some existingQuestion \<Rightarrow> (Inl DuplicateUrl, s)
      | None \<Rightarrow>
          (let question =
                 \<lparr>id_q = nextId s,
                  name = c_name data,
                  category = c_category data,
                  leetcodeUrl = c_leetcodeUrl data,
                  leetcodeDifficulty = c_leetcodeDifficulty data,
                  status = not_started,
                  firstCompleted = None,
                  lastReviewed = None,
                  nextReview = None,
                  reviewCount = 0,
                  difficultyHistory = [],
                  notes_q = or_else (c_notes data) (Some [])\<rparr>
           in (Inr question,
               s\<lparr>questions := questions s @ [question], nextId := nextId s + 1\<rparr>)))"

text \<open>The object spread \<^verbatim>\<open>{...question, ...data}\<close>: a field of \<open>data\<close> that is present
  replaces the question's.\<close>

definition spread :: "question \<Rightarrow> UpdateQuestionRequest \<Rightarrow> question" where
  "spread q data =
     q\<lparr>name := (case u_name data of None \<Rightarrow> name q | Some v \<Rightarrow> v),
       category := (case u_category data of None \<Rightarrow> category q | Some v \<Rightarrow> v),
       leetcodeUrl := (case u_leetcodeUrl data of None \<Rightarrow> leetcodeUrl q | Some v \<Rightarrow> v),
       notes_q := (case u_notes data of None \<Rightarrow> notes_q q | Some v \<Rightarrow> Some v)\<rparr>"

definition updateQuestion ::
  "int \<Rightarrow> UpdateQuestionRequest \<Rightarrow> store \<Rightarrow> (error + question) \<times> store" where
  "updateQuestion i data s =
     (case findIndex (\<lambda>q. id_q q = i) (questions s) of
        None \<Rightarrow> (Inl NotFound, s)
      | Some questionIndex \<Rightarrow>
          if truthy (u_leetcodeUrl data) \<and>
             find (\<lambda>q. Some (leetcodeUrl q) = u_leetcodeUrl data \<and> id_q q \<noteq> i) (questions s)
               \<noteq> None
          then (Inl DuplicateUrl, s)
          else
            (let updatedQuestion = spread (questions s ! questionIndex) data
             in (Inr updatedQuestion,
                 s\<lparr>questions := (questions s)[questionIndex := updatedQuestion]\<rparr>)))"

text \<open>\<^verbatim>\<open>splice(questionIndex, 1)\<close>.\<close>

definition deleteQuestion :: "int \<Rightarrow> store \<Rightarrow> bool \<times> store" where
  "deleteQuestion i s =
     (case findIndex (\<lambda>q. id_q q = i) (questions s) of
        None \<Rightarrow> (False, s)
      | Some questionIndex \<Rightarrow>
          (True,
           s\<lparr>questions := take questionIndex (questions s) @ drop (Suc questionIndex) (questions s)\<rparr>))"

text \<open>
  \<^verbatim>\<open>completeQuestion\<close>. \<open>toISO\<close> is \<^verbatim>\<open>Date.prototype.toISOString\<close> on valid dates, a
  function of the platform; on an Invalid Date it throws a \<^verbatim>\<open>RangeError\<close>. \<open>now\<close> is the
  clock, read once for the operation. When \<^verbatim>\<open>findIndex\<close> gives -1 the assignment
  \<^verbatim>\<open>this.questions[-1] = ...\<close> leaves the elements of the array as they are.
\<close>

definition completeQuestion ::
  "(int \<Rightarrow> string) \<Rightarrow> int \<Rightarrow> int \<Rightarrow> ReviewRequest \<Rightarrow> store \<Rightarrow> (error + question) \<times> store" where
  "completeQuestion toISO now i reviewData s =
     (case getQuestionById i s of
        None \<Rightarrow> (Inl NotFound, s)
      | Some question \<Rightarrow>
          (case calculateNextReview now 0 (r_difficulty reviewData) of
             Invalid_Date \<Rightarrow> (Inl RangeError, s)
           | Valid nextReviewDate \<Rightarrow>
               (let updatedQuestion =
                      question\<lparr>status := under_review,
                        firstCompleted := or_else (firstCompleted question) (Some (toISO now)),
                        lastReviewed := Some (toISO now),
                        nextReview := Some (toISO nextReviewDate),
                        reviewCount := 1,
                        difficultyHistory := [r_difficulty reviewData],
                        notes_q := or_else (r_notes reviewData) (notes_q question)\<rparr>
                in case findIndex (\<lambda>q. id_q q = i) (questions s) of
                     None \<Rightarrow> (Inr updatedQuestion, s)
                   | Some questionIndex \<Rightarrow>
                       (Inr updatedQuestion,
                        s\<lparr>questions := (questions s)[questionIndex := updatedQuestion]\<rparr>))))"

text \<open>
  \<^verbatim>\<open>reviewQuestion\<close> mutates the object that \<^verbatim>\<open>find\<close> returns, the first question with
  the id, in the order of the source: \<^verbatim>\<open>lastReviewed\<close> is written before
  \<^verbatim>\<open>nextReview.toISOString()\<close> can throw.
\<close>

definition reviewQuestion ::
  "(int \<Rightarrow> string) \<Rightarrow> int \<Rightarrow> int \<Rightarrow> ReviewRequest \<Rightarrow> store \<Rightarrow> (error + question) \<times> store" where
  "reviewQuestion toISO now i reviewData s =
     (case findIndex (\<lambda>q. id_q q = i) (questions s) of
        None \<Rightarrow> (Inl NotFound, s)
      | Some k \<Rightarrow>
          (let question = questions s ! k
           in case calculateNextReview now (reviewCount question) (r_difficulty reviewData) of
                Invalid_Date \<Rightarrow>
                  (Inl RangeError,
                   s\<lparr>questions := (questions s)[k := question\<lparr>lastReviewed := Some (toISO now)\<rparr>]\<rparr>)
              | Valid nextReviewDate \<Rightarrow>
                  (let question' =
                         question\<lparr>lastReviewed := Some (toISO now),
                           nextReview := Some (toISO nextReviewDate),
                           reviewCount := reviewCount question + 1,
                           difficultyHistory := difficultyHistory question @ [r_difficulty reviewData],
                           notes_q := or_else (r_notes reviewData) (notes_q question),
                           status := (if r_difficulty reviewData = hard then needs_attention
                                      else under_review)\<rparr>
                   in (Inr question', s\<lparr>questions := (questions s)[k := question']\<rparr>))))"

definition resetQuestion :: "int \<Rightarrow> store \<Rightarrow> (error + question) \<times> store" where
  "resetQuestion i s =
     (case findIndex (\<lambda>q. id_q q = i) (questions s) of
        None \<Rightarrow> (Inl NotFound, s)
      | Some k \<Rightarrow>
          (let question' =
                 (questions s ! k)\<lparr>status := not_started,
                   firstCompleted := None,
                   lastReviewed := None,
                   nextReview := None,
                   reviewCount := 0,
                   difficultyHistory := []\<rparr>
           in (Inr question', s\<lparr>questions := (questions s)[k := question']\<rparr>)))"

subsection \<open>Sequences of store operations\<close>

text \<open>A call of the service: the operation with its arguments, and the clock for the two
  operations that read it.\<close>

datatype op =
    Create CreateQuestionRequest
  | Update int UpdateQuestionRequest
  | Delete int
  | Complete int int ReviewRequest
  | Review int int ReviewRequest
  | Reset int
  | Reload "question list"

fun exec :: "(int \<Rightarrow> string) \<Rightarrow> op \<Rightarrow> store \<Rightarrow> store" where
  "exec toISO (Create data) s = snd (createQuestion data s)"
| "exec toISO (Update i data) s = snd (updateQuestion i data s)"
| "exec toISO (Delete i) s = snd (deleteQuestion i s)"
| "exec toISO (Complete now i reviewData) s = snd (completeQuestion toISO now i reviewData s)"
| "exec toISO (Review now i reviewData) s = snd (reviewQuestion toISO now i reviewData s)"
| "exec toISO (Reset i) s = snd (resetQuestion i s)"
| "exec toISO (Reload loaded) s = initialize loaded"

fun run :: "(int \<Rightarrow> string) \<Rightarrow> op list \<Rightarrow> store \<Rightarrow> store" where
  "run toISO [] s = s"
| "run toISO (x # xs) s = run toISO xs (exec toISO x s)"


text \<open>The operations that keep every question at its place in the array.\<close>

fun keeps_places :: "op \<Rightarrow> bool" where
  "keeps_places (Delete i) = False"
| "keeps_places (Reload loaded) = False"
| "keeps_places x = True"


section \<open>Due questions\<close>

text \<open>
  \<^verbatim>\<open>new Date(string)\<close> is the platform's parser, a parameter \<open>parse\<close> of what follows:
  it gives an Invalid Date for a string it cannot read. \<^verbatim>\<open>new Date(undefined)\<close> is an
  Invalid Date. Comparing with an Invalid Date (NaN) is false, whatever the comparison.
\<close>

definition newDate :: "(string \<Rightarrow> jsdate) \<Rightarrow> string option \<Rightarrow> jsdate" where
  "newDate parse v = (case v of None \<Rightarrow> Invalid_Date | Some str \<Rightarrow> parse str)"

fun dateOnly :: "jsdate \<Rightarrow> jsdate" where
  "dateOnly Invalid_Date = Invalid_Date"
| "dateOnly (Valid t) = Valid (startOfDay t)"

fun date_less :: "jsdate \<Rightarrow> jsdate \<Rightarrow> bool" where
  "date_less (Valid a) (Valid b) = (a < b)"
| "date_less a b = False"

fun date_le :: "jsdate \<Rightarrow> jsdate \<Rightarrow> bool" where
  "date_le (Valid a) (Valid b) = (a \<le> b)"
| "date_le a b = False"

fun date_eq :: "jsdate \<Rightarrow> jsdate \<Rightarrow> bool" where
  "date_eq (Valid a) (Valid b) = (a = b)"
| "date_eq a b = False"

subsection \<open>The backend: \<^verbatim>\<open>QuestionService.getDueQuestions\<close>\<close>

record DueQuestionsResponse =
  due_questions :: "question list"
  due_overdue :: "question list"

definition isDueQuestion :: "(string \<Rightarrow> jsdate) \<Rightarrow> jsdate \<Rightarrow> question \<Rightarrow> bool" where
  "isDueQuestion parse today q =
     (if \<not> truthy (nextReview q) \<or> nextReview q = Some ''0'' then False
      else case newDate parse (nextReview q) of
             Invalid_Date \<Rightarrow> False
           | Valid t \<Rightarrow> date_le (dateOnly (Valid t)) today)"

definition isOverdueQuestion :: "(string \<Rightarrow> jsdate) \<Rightarrow> jsdate \<Rightarrow> question \<Rightarrow> bool" where
  "isOverdueQuestion parse today q =
     date_less (dateOnly (newDate parse (nextReview q))) today"

definition isDueTodayQuestion :: "(string \<Rightarrow> jsdate) \<Rightarrow> jsdate \<Rightarrow> question \<Rightarrow> bool" where
  "isDueTodayQuestion parse today q =
     date_eq (dateOnly (newDate parse (nextReview q))) today"

definition getDueQuestions :: "(string \<Rightarrow> jsdate) \<Rightarrow> int \<Rightarrow> store \<Rightarrow> DueQuestionsResponse" where
  "getDueQuestions parse now s =
     (let today = dateOnly (Valid now);
          dueQuestions = filter (isDueQuestion parse today) (questions s);
          overdue = filter (isOverdueQuestion parse today) dueQuestions;
          dueToday = filter (isDueTodayQuestion parse today) dueQuestions
      in \<lparr>due_questions = dueToday, due_overdue = overdue\<rparr>)"

subsection \<open>The frontend: \<^verbatim>\<open>utils/spacedRepetition\<close> and \<^verbatim>\<open>ReviewQueue\<close>\<close>

definition isDueForReview :: "(string \<Rightarrow> jsdate) \<Rightarrow> int \<Rightarrow> string option \<Rightarrow> bool" where
  "isDueForReview parse now nextReview' =
     (if \<not> truthy nextReview' then False
      else date_le (newDate parse nextReview') (Valid now))"

definition isOverdue :: "(string \<Rightarrow> jsdate) \<Rightarrow> int \<Rightarrow> string option \<Rightarrow> bool" where
  "isOverdue parse now nextReview' =
     (if \<not> truthy nextReview' then False
      else let today = dateOnly (Valid now);
               reviewDate = dateOnly (newDate parse nextReview')
           in date_less reviewDate today)"

text \<open>\<^verbatim>\<open>getDaysOverdue\<close> returns a number; \<open>None\<close> is NaN. \<^verbatim>\<open>Math.floor\<close> of the quotient
  of two whole numbers of milliseconds is \<open>div\<close>. \<open>timeValue\<close> gives \<^verbatim>\<open>getTime()\<close> of the
  two local midnights.\<close>

definition getDaysOverdue ::
  "(string \<Rightarrow> jsdate) \<Rightarrow> (int \<Rightarrow> int) \<Rightarrow> int \<Rightarrow> string option \<Rightarrow> int option" where
  "getDaysOverdue parse timeValue now nextReview' =
     (if \<not> truthy nextReview' then Some 0
      else case dateOnly (newDate parse nextReview') of
             Invalid_Date \<Rightarrow> None
           | Valid reviewDate \<Rightarrow>
               (let diffTime = timeValue (startOfDay now) - timeValue reviewDate
                in Some (diffTime div (1000 * 60 * 60 * 24))))"

text \<open>Subtraction of numbers, NaN when one of them is.\<close>

fun num_minus :: "int option \<Rightarrow> int option \<Rightarrow> int option" where
  "num_minus (Some a) (Some b) = Some (a - b)"
| "num_minus a b = None"

fun getTime :: "jsdate \<Rightarrow> int option" where
  "getTime Invalid_Date = None"
| "getTime (Valid t) = Some t"

text \<open>
  \<^verbatim>\<open>Array.prototype.sort\<close> with a comparator: a stable sort, in which a comparator result
  of NaN counts as 0. It is written as insertion sort; on a list where the comparator is a
  consistent order every stable sort gives this result.
\<close>

fun cmp_le0 :: "int option \<Rightarrow> bool" where
  "cmp_le0 None = True"
| "cmp_le0 (Some v) = (v \<le> 0)"

fun insort_cmp :: "('a \<Rightarrow> 'a \<Rightarrow> int option) \<Rightarrow> 'a \<Rightarrow> 'a list \<Rightarrow> 'a list" where
  "insort_cmp cmp x [] = [x]"
| "insort_cmp cmp x (y # ys) =
     (if cmp_le0 (cmp x y) then x # y # ys else y # insort_cmp cmp x ys)"

definition js_sort :: "('a \<Rightarrow> 'a \<Rightarrow> int option) \<Rightarrow> 'a list \<Rightarrow> 'a list" where
  "js_sort cmp xs = foldr (insort_cmp cmp) xs []"

definition reviewQuestions :: "question list \<Rightarrow> question list" where
  "reviewQuestions qs = filter (\<lambda>q. status q = under_review \<and> truthy (nextReview q)) qs"

definition overdueQuestions ::
  "(string \<Rightarrow> jsdate) \<Rightarrow> (int \<Rightarrow> int) \<Rightarrow> int \<Rightarrow> question list \<Rightarrow> question list" where
  "overdueQuestions parse timeValue now qs =
     js_sort (\<lambda>a b. num_minus (getDaysOverdue parse timeValue now (nextReview b))
                               (getDaysOverdue parse timeValue now (nextReview a)))
       (filter (\<lambda>q. isOverdue parse now (nextReview q)) (reviewQuestions qs))"

definition dueTodayQuestions :: "(string \<Rightarrow> jsdate) \<Rightarrow> int \<Rightarrow> question list \<Rightarrow> question list" where
  "dueTodayQuestions parse now qs =
     filter (\<lambda>q. \<not> isOverdue parse now (nextReview q) \<and> isDueForReview parse now (nextReview q))
       (reviewQuestions qs)"

definition isUpcoming :: "(string \<Rightarrow> jsdate) \<Rightarrow> int \<Rightarrow> question \<Rightarrow> bool" where
  "isUpcoming parse now q =
     (if \<not> truthy (nextReview q) then False
      else let threeDaysFromNow = Valid (addDays now 3);
               reviewDate = newDate parse (nextReview q)
           in date_less (Valid now) reviewDate \<and> date_le reviewDate threeDaysFromNow)"

definition upcomingQuestions :: "(string \<Rightarrow> jsdate) \<Rightarrow> int \<Rightarrow> question list \<Rightarrow> question list" where
  "upcomingQuestions parse now qs =
     js_sort (\<lambda>a b. num_minus (getTime (newDate parse (nextReview a)))
                               (getTime (newDate parse (nextReview b))))
       (filter (isUpcoming parse now) (reviewQuestions qs))"

section \<open>Sample data\<close>

text \<open>
  \<^verbatim>\<open>toISOString\<close> and the parser of the platform on the instants that the examples use,
  for a local zone at offset 0; day 20000 is 4 October 2024. The sample parser reads
  every other string as an Invalid Date.
\<close>

definition toISOString_sample :: "int \<Rightarrow> string" where
  "toISOString_sample t =
     (if t = 1727827200000 then ''2024-10-02T00:00:00.000Z''
      else if t = 1727913600000 then ''2024-10-03T00:00:00.000Z''
      else if t = 1728000000000 then ''2024-10-04T00:00:00.000Z''
      else if t = 1728032400000 then ''2024-10-04T09:00:00.000Z''
      else if t = 1728036000000 then ''2024-10-04T10:00:00.000Z''
      else if t = 1728043200000 then ''2024-10-04T12:00:00.000Z''
      else if t = 1728054000000 then ''2024-10-04T15:00:00.000Z''
      else if t = 1728086400000 then ''2024-10-05T00:00:00.000Z''
      else if t = 1728122400000 then ''2024-10-05T10:00:00.000Z''
      else if t = 1728172800000 then ''2024-10-06T00:00:00.000Z''
      else if t = 1728259200000 then ''2024-10-07T00:00:00.000Z''
      else if t = 1728313200000 then ''2024-10-07T15:00:00.000Z''
      else if t = 1728345600000 then ''2024-10-08T00:00:00.000Z''
      else [])"

definition parse_sample :: "string \<Rightarrow> jsdate" where
  "parse_sample str =
     (if str = ''2024-10-02T00:00:00.000Z'' then Valid 1727827200000
      else if str = ''2024-10-03T00:00:00.000Z'' then Valid 1727913600000
      else if str = ''2024-10-04T00:00:00.000Z'' then Valid 1728000000000
      else if str = ''2024-10-04T09:00:00.000Z'' then Valid 1728032400000
      else if str = ''2024-10-04T10:00:00.000Z'' then Valid 1728036000000
      else if str = ''2024-10-04T12:00:00.000Z'' then Valid 1728043200000
      else if str = ''2024-10-04T15:00:00.000Z'' then Valid 1728054000000
      else if str = ''2024-10-05T00:00:00.000Z'' then Valid 1728086400000
      else if str = ''2024-10-05T10:00:00.000Z'' then Valid 1728122400000
      else if str = ''2024-10-06T00:00:00.000Z'' then Valid 1728172800000
      else if str = ''2024-10-07T00:00:00.000Z'' then Valid 1728259200000
      else if str = ''2024-10-07T15:00:00.000Z'' then Valid 1728313200000
      else if str = ''2024-10-08T00:00:00.000Z'' then Valid 1728345600000
      else Invalid_Date)"

text \<open>\<^verbatim>\<open>getTime()\<close> of a local value in the zone at offset 0, and in a zone five hours
  behind UTC that moves its clocks forward by an hour at 2:00 on day 19792, the 10th of
  March 2024.\<close>

definition timeValue_sample :: "int \<Rightarrow> int" where
  "timeValue_sample x = x"

definition timeValue_spring :: "int \<Rightarrow> int" where
  "timeValue_spring x =
     (if x < 19792 * msPerDay + 2 * 3600000 then x + 5 * 3600000 else x + 4 * 3600000)"

definition twoSum :: CreateQuestionRequest where
  "twoSum =
     \<lparr>c_name = ''Two Sum'', c_category = ''Arrays'',
      c_leetcodeUrl = ''https://leetcode.com/problems/two-sum/'',
      c_leetcodeDifficulty = Some Easy, c_notes = None\<rparr>"

definition validAnagram :: CreateQuestionRequest where
  "validAnagram =
     \<lparr>c_name = ''Valid Anagram'', c_category = ''Arrays'',
      c_leetcodeUrl = ''https://leetcode.com/problems/valid-anagram/'',
      c_leetcodeDifficulty = None, c_notes = Some ''sort both''\<rparr>"

definition containsDuplicate :: CreateQuestionRequest where
  "containsDuplicate =
     \<lparr>c_name = ''Contains Duplicate'', c_category = ''Arrays'',
      c_leetcodeUrl = ''https://leetcode.com/problems/contains-duplicate/'',
      c_leetcodeDifficulty = Some Easy, c_notes = Some []\<rparr>"

text \<open>Two questions are created in the empty store; the first is completed, rated easy, at
  10:00 on 4 October 2024.\<close>

definition sample_store :: store where
  "sample_store =
     run toISOString_sample
       [Create twoSum, Create validAnagram,
        Complete 1728036000000 1 \<lparr>r_difficulty = easy, r_notes = None\<rparr>]
       (initialize [])"

text \<open>Questions under review that differ in their \<^verbatim>\<open>nextReview\<close>, for the due queries at
  12:00 on 4 October 2024: yesterday, two days ago, today at 9:00 and at 15:00, tomorrow,
  none, \<^verbatim>\<open>'0'\<close>, an unreadable string, in four days, in three days, and today at 0:00.\<close>

definition sampleQuestion :: "int \<Rightarrow> string option \<Rightarrow> question" where
  "sampleQuestion i v =
     \<lparr>id_q = i, name = ''Q'', category = ''Arrays'', leetcodeUrl = ''u'',
      leetcodeDifficulty = None, status = under_review,
      firstCompleted = Some ''2024-10-02T00:00:00.000Z'',
      lastReviewed = Some ''2024-10-02T00:00:00.000Z'',
      nextReview = v, reviewCount = 1, difficultyHistory = [easy], notes_q = Some []\<rparr>"

definition due_sample :: "question list" where
  "due_sample =
     [sampleQuestion 1 (Some ''2024-10-03T00:00:00.000Z''),
      sampleQuestion 2 (Some ''2024-10-02T00:00:00.000Z''),
      sampleQuestion 3 (Some ''2024-10-04T09:00:00.000Z''),
      sampleQuestion 4 (Some ''2024-10-04T15:00:00.000Z''),
      sampleQuestion 5 (Some ''2024-10-05T00:00:00.000Z''),
      sampleQuestion 6 None,
      sampleQuestion 7 (Some ''0''),
      sampleQuestion 8 (Some ''soon''),
      sampleQuestion 9 (Some ''2024-10-08T00:00:00.000Z''),
      sampleQuestion 10 (Some ''2024-10-07T00:00:00.000Z''),
      sampleQuestion 11 (Some ''2024-10-04T00:00:00.000Z'')]"

text \<open>Those of them whose \<^verbatim>\<open>nextReview\<close> is a local midnight, as the backend scheduler
  writes it.\<close>

definition due_sample_midnight :: "question list" where
  "due_sample_midnight =
     [sampleQuestion 1 (Some ''2024-10-03T00:00:00.000Z''),
      sampleQuestion 2 (Some ''2024-10-02T00:00:00.000Z''),
      sampleQuestion 5 (Some ''2024-10-05T00:00:00.000Z''),
      sampleQuestion 9 (Some ''2024-10-08T00:00:00.000Z''),
      sampleQuestion 10 (Some ''2024-10-07T00:00:00.000Z''),
      sampleQuestion 11 (Some ''2024-10-04T00:00:00.000Z'')]"

section \<open>Facts about dates and the scheduler\<close>

lemma msPerDay_pos: "0 < msPerDay"
  by (simp add: msPerDay_def)

lemma startOfDay_mod: "startOfDay t mod msPerDay = 0"
  by (simp add: startOfDay_def minus_mod_eq_mult_div)

lemma startOfDay_dayOf: "startOfDay t = dayOf t * msPerDay"
  by (simp add: startOfDay_def dayOf_def minus_mod_eq_mult_div)

lemma dayOf_addDays: "dayOf (addDays t n) = dayOf t + n"
  using msPerDay_pos by (simp add: dayOf_def addDays_def)

lemma startOfDay_addDays: "startOfDay (addDays t n) = addDays (startOfDay t) n"
proof -
  have "startOfDay (addDays t n) = (dayOf t + n) * msPerDay"
    by (simp only: startOfDay_dayOf dayOf_addDays)
  also have "\<dots> = addDays (startOfDay t) n"
    by (simp add: startOfDay_dayOf addDays_def algebra_simps)
  finally show ?thesis .
qed

lemma interval_at_clamped:
  assumes "0 \<le> n"
  shows "interval_at (min n (int (length intervals) - 1)) = Some (intervals ! nat (min n 5))"
  using assms by (simp add: interval_at_def intervals_def)

lemma interval_at_0: "interval_at 0 = Some 1"
  by (simp add: interval_at_def intervals_def)

lemma addDays_startOfDay_mod: "addDays (startOfDay t) k mod msPerDay = 0"
  by (simp add: addDays_def startOfDay_dayOf)

section \<open>Facts about arrays\<close>

lemma findIndex_Some:
  "findIndex P xs = Some k \<Longrightarrow> k < length xs \<and> P (xs ! k) \<and> (\<forall>j<k. \<not> P (xs ! j))"
proof (induction xs arbitrary: k)
  case Nil
  then show ?case by simp
next
  case (Cons x xs)
  show ?case
  proof (cases "P x")
    case True
    with Cons.prems show ?thesis by simp
  next
    case False
    with Cons.prems obtain k' where k': "findIndex P xs = Some k'" "k = Suc k'"
      by auto
    from Cons.IH [OF k'(1)] False k'(2) show ?thesis
      by (auto simp: less_Suc_eq_0_disj)
  qed
qed

lemma findIndex_None: "findIndex P xs = None \<longleftrightarrow> (\<forall>x\<in>set xs. \<not> P x)"
  by (induction xs) auto

lemma find_findIndex: "find P xs = map_option (nth xs) (findIndex P xs)"
  by (induction xs) (auto simp: option.map_comp comp_def)

lemma findIndex_update:
  "findIndex P xs = Some k \<Longrightarrow> P y \<Longrightarrow> findIndex P (xs[k := y]) = Some k"
proof (induction xs arbitrary: k)
  case Nil
  then show ?case by simp
next
  case (Cons x xs)
  then show ?case by (cases "P x") (auto split: nat.splits)
qed

lemma getQuestionById_Some:
  "getQuestionById i s = Some q \<longleftrightarrow>
     (\<exists>k. findIndex (\<lambda>q. id_q q = i) (questions s) = Some k \<and> questions s ! k = q)"
  by (auto simp: getQuestionById_def find_findIndex)

section \<open>What an operation leaves at a place of the array\<close>

lemma calculateNextReview_0:
  "calculateNextReview now 0 d = Valid (addDays (startOfDay now) 1)"
  by (simp add: calculateNextReview_def interval_at_def intervals_def startOfDay_addDays)

lemma createQuestion_nth:
  "k < length (questions s) \<Longrightarrow>
     k < length (questions (snd (createQuestion data s)))
     \<and> questions (snd (createQuestion data s)) ! k = questions s ! k"
  by (simp add: createQuestion_def Let_def nth_append split: option.splits)

lemma updateQuestion_nth:
  assumes "k < length (questions s)"
  shows "k < length (questions (snd (updateQuestion i data s)))
     \<and> (questions (snd (updateQuestion i data s)) ! k = questions s ! k
        \<or> questions (snd (updateQuestion i data s)) ! k = spread (questions s ! k) data)"
proof (cases "findIndex (\<lambda>q. id_q q = i) (questions s)")
  case None
  then show ?thesis using assms by (simp add: updateQuestion_def)
next
  case (Some j)
  show ?thesis
  proof (cases "j = k")
    case True
    then show ?thesis using assms Some by (simp add: updateQuestion_def Let_def)
  next
    case False
    then show ?thesis using assms Some by (simp add: updateQuestion_def Let_def)
  qed
qed

lemma completeQuestion_nth:
  assumes "k < length (questions s)"
  shows "k < length (questions (snd (completeQuestion toISO now i rd s)))
     \<and> (questions (snd (completeQuestion toISO now i rd s)) ! k = questions s ! k
        \<or> questions (snd (completeQuestion toISO now i rd s)) ! k
             = (questions s ! k)\<lparr>status := under_review,
                 firstCompleted := or_else (firstCompleted (questions s ! k)) (Some (toISO now)),
                 lastReviewed := Some (toISO now),
                 nextReview := Some (toISO (addDays (startOfDay now) 1)),
                 reviewCount := 1,
                 difficultyHistory := [r_difficulty rd],
                 notes_q := or_else (r_notes rd) (notes_q (questions s ! k))\<rparr>)"
proof (cases "findIndex (\<lambda>q. id_q q = i) (questions s)")
  case None
  then show ?thesis using assms
    by (simp add: completeQuestion_def getQuestionById_def find_findIndex)
next
  case (Some j)
  show ?thesis
  proof (cases "j = k")
    case True
    then show ?thesis using assms Some
      by (simp add: completeQuestion_def getQuestionById_def find_findIndex
          calculateNextReview_0 Let_def)
  next
    case False
    then show ?thesis using assms Some
      by (simp add: completeQuestion_def getQuestionById_def find_findIndex
          calculateNextReview_0 Let_def)
  qed
qed

lemma reviewQuestion_nth:
  assumes "k < length (questions s)"
  shows "k < length (questions (snd (reviewQuestion toISO now i rd s)))
     \<and> (questions (snd (reviewQuestion toISO now i rd s)) ! k = questions s ! k
        \<or> questions (snd (reviewQuestion toISO now i rd s)) ! k
            = (questions s ! k)\<lparr>lastReviewed := Some (toISO now)\<rparr>
        \<or> (\<exists>t. questions (snd (reviewQuestion toISO now i rd s)) ! k
             = (questions s ! k)\<lparr>lastReviewed := Some (toISO now),
                 nextReview := Some (toISO t),
                 reviewCount := reviewCount (questions s ! k) + 1,
                 difficultyHistory := difficultyHistory (questions s ! k) @ [r_difficulty rd],
                 notes_q := or_else (r_notes rd) (notes_q (questions s ! k)),
                 status := (if r_difficulty rd = hard then needs_attention else under_review)\<rparr>))"
proof (cases "findIndex (\<lambda>q. id_q q = i) (questions s)")
  case None
  then show ?thesis using assms by (simp add: reviewQuestion_def)
next
  case (Some j)
  show ?thesis
  proof (cases "j = k")
    case True
    show ?thesis
    proof (cases "calculateNextReview now (reviewCount (questions s ! k)) (r_difficulty rd)")
      case Invalid_Date
      then show ?thesis using assms Some True by (simp add: reviewQuestion_def Let_def)
    next
      case (Valid t)
      then have "k < length (questions (snd (reviewQuestion toISO now i rd s)))
        \<and> questions (snd (reviewQuestion toISO now i rd s)) ! k
             = (questions s ! k)\<lparr>lastReviewed := Some (toISO now),
                 nextReview := Some (toISO t),
                 reviewCount := reviewCount (questions s ! k) + 1,
                 difficultyHistory := difficultyHistory (questions s ! k) @ [r_difficulty rd],
                 notes_q := or_else (r_notes rd) (notes_q (questions s ! k)),
                 status := (if r_difficulty rd = hard then needs_attention else under_review)\<rparr>"
        using assms Some True by (simp add: reviewQuestion_def Let_def)
      then show ?thesis by blast
    qed
  next
    case False
    then show ?thesis using assms Some
      by (simp add: reviewQuestion_def Let_def split: jsdate.splits)
  qed
qed

lemma resetQuestion_nth:
  assumes "k < length (questions s)"
  shows "k < length (questions (snd (resetQuestion i s)))
     \<and> (questions (snd (resetQuestion i s)) ! k = questions s ! k
        \<or> questions (snd (resetQuestion i s)) ! k
            = (questions s ! k)\<lparr>status := not_started, firstCompleted := None,
                 lastReviewed := None, nextReview := None, reviewCount := 0,
                 difficultyHistory := []\<rparr>)"
proof (cases "findIndex (\<lambda>q. id_q q = i) (questions s)")
  case None
  then show ?thesis using assms by (simp add: resetQuestion_def)
next
  case (Some j)
  show ?thesis
  proof (cases "j = k")
    case True
    then show ?thesis using assms Some by (simp add: resetQuestion_def Let_def)
  next
    case False
    then show ?thesis using assms Some by (simp add: resetQuestion_def Let_def)
  qed
qed


lemma exec_nth:
  assumes "keeps_places x" and "k < length (questions s)"
    and "I (questions s ! k)"
    and "\<And>q data. I q \<Longrightarrow> I (spread q data)"
    and "\<And>q a b c d e. I q \<Longrightarrow> I (q\<lparr>status := under_review, firstCompleted := a,
           lastReviewed := b, nextReview := Some c, reviewCount := 1,
           difficultyHistory := [d], notes_q := e\<rparr>)"
    and "\<And>q b. I q \<Longrightarrow> I (q\<lparr>lastReviewed := b\<rparr>)"
    and "\<And>q b c d e. I q \<Longrightarrow> I (q\<lparr>lastReviewed := b, nextReview := Some c,
           reviewCount := reviewCount q + 1, difficultyHistory := difficultyHistory q @ [d],
           notes_q := e, status := (if d = hard then needs_attention else under_review)\<rparr>)"
    and "\<And>q. I q \<Longrightarrow> I (q\<lparr>status := not_started, firstCompleted := None,
           lastReviewed := None, nextReview := None, reviewCount := 0,
           difficultyHistory := []\<rparr>)"
  shows "k < length (questions (exec toISO x s)) \<and> I (questions (exec toISO x s) ! k)"
proof (cases x)
  case (Create data)
  then show ?thesis using assms(2,3) createQuestion_nth [of k s data] by simp
next
  case (Update i data)
  then show ?thesis using assms(2,3) assms(4) updateQuestion_nth [of k s i data] by auto
next
  case (Delete i)
  then show ?thesis using assms(1) by simp
next
  case (Complete now i rd)
  then show ?thesis
    using assms(2,3) assms(5) completeQuestion_nth [of k s toISO now i rd] by auto
next
  case (Review now i rd)
  then show ?thesis
    using assms(2,3) assms(6) assms(7) reviewQuestion_nth [of k s toISO now i rd] by auto
next
  case (Reset i)
  then show ?thesis using assms(2,3) assms(8) resetQuestion_nth [of k s i] by auto
next
  case (Reload loaded)
  then show ?thesis using assms(1) by simp
qed


lemma run_nth:
  assumes "\<forall>x\<in>set ops. keeps_places x" and "k < length (questions s)"
    and "I (questions s ! k)"
    and "\<And>q data. I q \<Longrightarrow> I (spread q data)"
    and "\<And>q a b c d e. I q \<Longrightarrow> I (q\<lparr>status := under_review, firstCompleted := a,
           lastReviewed := b, nextReview := Some c, reviewCount := 1,
           difficultyHistory := [d], notes_q := e\<rparr>)"
    and "\<And>q b. I q \<Longrightarrow> I (q\<lparr>lastReviewed := b\<rparr>)"
    and "\<And>q b c d e. I q \<Longrightarrow> I (q\<lparr>lastReviewed := b, nextReview := Some c,
           reviewCount := reviewCount q + 1, difficultyHistory := difficultyHistory q @ [d],
           notes_q := e, status := (if d = hard then needs_attention else under_review)\<rparr>)"
    and "\<And>q. I q \<Longrightarrow> I (q\<lparr>status := not_started, firstCompleted := None,
           lastReviewed := None, nextReview := None, reviewCount := 0,
           difficultyHistory := []\<rparr>)"
  shows "k < length (questions (run toISO ops s)) \<and> I (questions (run toISO ops s) ! k)"
  using assms(1,2,3)
proof (induction ops arbitrary: s)
  case Nil
  then show ?case by simp
next
  case (Cons x ops)
  from Cons.prems(1) have kp: "keeps_places x" by simp
  have step: "k < length (questions (exec toISO x s)) \<and> I (questions (exec toISO x s) ! k)"
    by (rule exec_nth [OF kp Cons.prems(2) Cons.prems(3) assms(4) assms(5) assms(6) assms(7) assms(8)])
  from Cons.IH [of "exec toISO x s"] Cons.prems(1) step show ?case by simp
qed

lemma createQuestion_Inr:
  assumes "createQuestion data s = (Inr q, s1)"
  shows "s1 = s\<lparr>questions := questions s @ [q], nextId := nextId s + 1\<rparr>
       \<and> q = \<lparr>id_q = nextId s, name = c_name data, category = c_category data,
              leetcodeUrl = c_leetcodeUrl data, leetcodeDifficulty = c_leetcodeDifficulty data,
              status = not_started, firstCompleted = None, lastReviewed = None,
              nextReview = None, reviewCount = 0, difficultyHistory = [],
              notes_q = or_else (c_notes data) (Some [])\<rparr>"
  using assms by (auto simp: createQuestion_def Let_def split: option.splits)


section \<open>The ids of the store and the id counter\<close>

















section \<open>Facts about the due queries\<close>

lemma mult_le_iff_le_div:
  assumes "0 < (d::int)"
  shows "c * d \<le> a \<longleftrightarrow> c \<le> a div d"
proof
  assume "c * d \<le> a"
  then have "(c * d) div d \<le> a div d" using assms by (rule zdiv_mono1)
  then show "c \<le> a div d" using assms by simp
next
  assume "c \<le> a div d"
  then have "c * d \<le> (a div d) * d" using assms by (simp add: mult_right_mono)
  also have "\<dots> = a - a mod d"
    by (simp add: minus_mod_eq_div_mult)
  also have "\<dots> \<le> a"
    using assms by simp
  finally show "c * d \<le> a" .
qed

lemma less_mult_iff_div_less:
  assumes "0 < (d::int)"
  shows "a < c * d \<longleftrightarrow> a div d < c"
  using mult_le_iff_le_div [OF assms, of c a] by linarith

lemma startOfDay_le_self: "startOfDay t \<le> t"
  using msPerDay_pos by (simp add: startOfDay_def)

lemma midnight_eq: "t mod msPerDay = 0 \<Longrightarrow> t = dayOf t * msPerDay"
  using startOfDay_dayOf [of t] by (simp add: startOfDay_def)

lemma midnight_due_today:
  assumes "t mod msPerDay = 0"
  shows "(dayOf t = dayOf now \<and> t \<le> now) \<longleftrightarrow> dayOf t = dayOf now"
proof -
  have "t \<le> now" if "dayOf t = dayOf now"
    using midnight_eq [OF assms] that startOfDay_le_self [of now] by (simp add: startOfDay_dayOf)
  then show ?thesis by blast
qed

lemma midnight_upcoming:
  assumes "t mod msPerDay = 0"
  shows "(now < t \<and> t \<le> addDays now 3) \<longleftrightarrow> (dayOf now < dayOf t \<and> dayOf t \<le> dayOf now + 3)"
proof -
  have 1: "now < t \<longleftrightarrow> dayOf now < dayOf t"
    using less_mult_iff_div_less [OF msPerDay_pos, of now "dayOf t"] midnight_eq [OF assms]
    by (simp add: dayOf_def)
  have "t \<le> addDays now 3 \<longleftrightarrow> dayOf t * msPerDay \<le> addDays now 3"
    using midnight_eq [OF assms] by simp
  also have "\<dots> \<longleftrightarrow> dayOf t \<le> dayOf (addDays now 3)"
    using mult_le_iff_le_div [OF msPerDay_pos, of "dayOf t" "addDays now 3"]
    by (simp add: dayOf_def)
  finally have 2: "t \<le> addDays now 3 \<longleftrightarrow> dayOf t \<le> dayOf now + 3"
    by (simp add: dayOf_addDays)
  from 1 2 show ?thesis by simp
qed

lemma startOfDay_le_iff: "startOfDay a \<le> startOfDay b \<longleftrightarrow> dayOf a \<le> dayOf b"
  using msPerDay_pos by (simp add: startOfDay_dayOf)

lemma startOfDay_less_iff: "startOfDay a < startOfDay b \<longleftrightarrow> dayOf a < dayOf b"
  using msPerDay_pos by (simp add: startOfDay_dayOf)

lemma startOfDay_eq_iff: "startOfDay a = startOfDay b \<longleftrightarrow> dayOf a = dayOf b"
  using msPerDay_pos by (simp add: startOfDay_dayOf)

lemma isDueQuestion_iff:
  "isDueQuestion parse (Valid (startOfDay now)) q \<longleftrightarrow>
     truthy (nextReview q) \<and> nextReview q \<noteq> Some ''0''
     \<and> (\<exists>t. newDate parse (nextReview q) = Valid t \<and> dayOf t \<le> dayOf now)"
  by (auto simp: isDueQuestion_def startOfDay_le_iff split: jsdate.splits)

lemma isOverdueQuestion_iff:
  "isOverdueQuestion parse (Valid (startOfDay now)) q \<longleftrightarrow>
     (\<exists>t. newDate parse (nextReview q) = Valid t \<and> dayOf t < dayOf now)"
  by (cases "newDate parse (nextReview q)") (simp_all add: isOverdueQuestion_def startOfDay_less_iff)

lemma isDueTodayQuestion_iff:
  "isDueTodayQuestion parse (Valid (startOfDay now)) q \<longleftrightarrow>
     (\<exists>t. newDate parse (nextReview q) = Valid t \<and> dayOf t = dayOf now)"
  by (cases "newDate parse (nextReview q)") (simp_all add: isDueTodayQuestion_def startOfDay_eq_iff)

lemma due_questions_eq:
  "due_questions (getDueQuestions parse now s)
     = filter (\<lambda>q. truthy (nextReview q) \<and> nextReview q \<noteq> Some ''0''
          \<and> (\<exists>t. newDate parse (nextReview q) = Valid t \<and> dayOf t = dayOf now)) (questions s)"
  unfolding getDueQuestions_def Let_def
  by (simp add: isDueQuestion_iff isDueTodayQuestion_iff) (rule filter_cong, auto)

lemma due_overdue_eq:
  "due_overdue (getDueQuestions parse now s)
     = filter (\<lambda>q. truthy (nextReview q) \<and> nextReview q \<noteq> Some ''0''
          \<and> (\<exists>t. newDate parse (nextReview q) = Valid t \<and> dayOf t < dayOf now)) (questions s)"
  unfolding getDueQuestions_def Let_def
  by (simp add: isDueQuestion_iff isOverdueQuestion_iff) (rule filter_cong, auto)

lemma isOverdue_iff:
  "isOverdue parse now v \<longleftrightarrow>
     truthy v \<and> (\<exists>t. newDate parse v = Valid t \<and> dayOf t < dayOf now)"
  by (cases "newDate parse v") (simp_all add: isOverdue_def Let_def startOfDay_less_iff)

lemma isDueForReview_iff:
  "isDueForReview parse now v \<longleftrightarrow>
     truthy v \<and> (\<exists>t. newDate parse v = Valid t \<and> t \<le> now)"
  by (cases "newDate parse v") (simp_all add: isDueForReview_def)

lemma isUpcoming_iff:
  "isUpcoming parse now q \<longleftrightarrow>
     truthy (nextReview q)
     \<and> (\<exists>t. newDate parse (nextReview q) = Valid t \<and> now < t \<and> t \<le> addDays now 3)"
  by (cases "newDate parse (nextReview q)") (simp_all add: isUpcoming_def Let_def)

lemma getDaysOverdue_Some:
  assumes "truthy v" and "newDate parse v = Valid t"
  shows "getDaysOverdue parse timeValue now v
           = Some ((timeValue (startOfDay now) - timeValue (startOfDay t)) div msPerDay)"
  using assms by (simp add: getDaysOverdue_def Let_def msPerDay_def)

lemma getDaysOverdue_fixed_offset:
  assumes "\<forall>x y. timeValue x - timeValue y = x - y"
    and "truthy v" and "newDate parse v = Valid t"
  shows "getDaysOverdue parse timeValue now v = Some (dayOf now - dayOf t)"
proof -
  have "(startOfDay now - startOfDay t) div msPerDay = dayOf now - dayOf t"
    using msPerDay_pos by (simp add: startOfDay_dayOf flip: left_diff_distrib)
  then show ?thesis using assms(1) getDaysOverdue_Some [OF assms(2,3), of timeValue now]
    by simp
qed

lemma getDaysOverdue_spring_forward:
  "isOverdue (\<lambda>str. Valid (19792 * 86400000)) (19793 * 86400000 + 43200000) (Some ''d'')
   \<and> getDaysOverdue (\<lambda>str. Valid (19792 * 86400000)) timeValue_spring
        (19793 * 86400000 + 43200000) (Some ''d'') = Some 0"
  by code_simp

lemma dayOf_mono: "a \<le> b \<Longrightarrow> dayOf a \<le> dayOf b"
  unfolding dayOf_def using msPerDay_pos by (simp add: zdiv_mono1)

lemma dayOf_less_imp_less: "dayOf t < dayOf now \<Longrightarrow> t < now"
  using dayOf_mono [of now t] by linarith

section \<open>Facts about sorting\<close>

lemma set_insort_cmp: "set (insort_cmp cmp x xs) = insert x (set xs)"
  by (induction xs) auto

lemma set_js_sort: "set (js_sort cmp xs) = set xs"
  by (induction xs) (simp_all add: js_sort_def set_insort_cmp)

lemma sorted_insort_cmp:
  assumes "sorted_wrt (\<lambda>a b. k a \<le> k b) ys"
    and "\<forall>y\<in>set ys. cmp_le0 (cmp x y) \<longleftrightarrow> k x \<le> (k y :: int)"
  shows "sorted_wrt (\<lambda>a b. k a \<le> k b) (insort_cmp cmp x ys)"
  using assms
proof (induction ys)
  case Nil
  then show ?case by simp
next
  case (Cons y ys)
  show ?case
  proof (cases "cmp_le0 (cmp x y)")
    case True
    with Cons.prems have "k x \<le> k y" by simp
    with Cons.prems(1) True show ?thesis by (auto intro: order_trans)
  next
    case False
    with Cons.prems have "k y \<le> k x" by simp
    with Cons False show ?thesis by (auto simp: set_insort_cmp)
  qed
qed

lemma sorted_js_sort:
  assumes "\<forall>x\<in>set xs. \<forall>y\<in>set xs. cmp_le0 (cmp x y) \<longleftrightarrow> k x \<le> (k y :: int)"
  shows "sorted_wrt (\<lambda>a b. k a \<le> k b) (js_sort cmp xs)"
  using assms
proof (induction xs)
  case Nil
  then show ?case by (simp add: js_sort_def)
next
  case (Cons x xs)
  then have "sorted_wrt (\<lambda>a b. k a \<le> k b) (js_sort cmp xs)" by simp
  moreover from Cons.prems have "\<forall>y\<in>set (js_sort cmp xs). cmp_le0 (cmp x y) \<longleftrightarrow> k x \<le> k y"
    by (simp add: set_js_sort)
  ultimately have "sorted_wrt (\<lambda>a b. k a \<le> k b) (insort_cmp cmp x (js_sort cmp xs))"
    by (rule sorted_insort_cmp)
  then show ?case by (simp add: js_sort_def)
qed

lemma insort_cmp_insort_key:
  assumes "\<forall>y\<in>set ys. cmp_le0 (cmp x y) \<longleftrightarrow> k x \<le> (k y :: int)"
  shows "insort_cmp cmp x ys = insort_key k x ys"
  using assms by (induction ys) simp_all

lemma js_sort_sort_key:
  assumes "\<forall>x\<in>set xs. \<forall>y\<in>set xs. cmp_le0 (cmp x y) \<longleftrightarrow> k x \<le> (k y :: int)"
  shows "js_sort cmp xs = sort_key k xs"
  using assms
proof (induction xs)
  case Nil
  then show ?case by (simp add: js_sort_def)
next
  case (Cons x xs)
  then have IH: "js_sort cmp xs = sort_key k xs" by simp
  from Cons.prems have "\<forall>y\<in>set (sort_key k xs). cmp_le0 (cmp x y) \<longleftrightarrow> k x \<le> k y"
    by simp
  then have "insort_cmp cmp x (sort_key k xs) = insort_key k x (sort_key k xs)"
    by (rule insort_cmp_insort_key)
  with IH show ?case by (simp add: js_sort_def sort_key_def)
qed

lemma overdueQuestions_eq:
  "overdueQuestions parse timeValue now qs
     = sort_key (\<lambda>q. case getDaysOverdue parse timeValue now (nextReview q) of
                         None \<Rightarrow> 0 | Some x \<Rightarrow> - x)
         (filter (\<lambda>q. status q = under_review \<and> truthy (nextReview q)
            \<and> (\<exists>t. newDate parse (nextReview q) = Valid t \<and> dayOf t < dayOf now)) qs)"
proof -
  let ?xs = "filter (\<lambda>q. isOverdue parse now (nextReview q)) (reviewQuestions qs)"
  let ?cmp = "\<lambda>a b. num_minus (getDaysOverdue parse timeValue now (nextReview b))
                               (getDaysOverdue parse timeValue now (nextReview a))"
  let ?k = "\<lambda>q. case getDaysOverdue parse timeValue now (nextReview q) of
                   None \<Rightarrow> 0 | Some x \<Rightarrow> - x"
  have valid: "\<exists>x. getDaysOverdue parse timeValue now (nextReview q) = Some x"
    if "q \<in> set ?xs" for q
    using that by (auto simp: isOverdue_iff getDaysOverdue_Some)
  have "\<forall>a\<in>set ?xs. \<forall>b\<in>set ?xs. cmp_le0 (?cmp a b) \<longleftrightarrow> ?k a \<le> ?k b"
  proof (intro ballI)
    fix a b assume "a \<in> set ?xs" "b \<in> set ?xs"
    from valid [OF this(1)] valid [OF this(2)]
    show "cmp_le0 (?cmp a b) \<longleftrightarrow> ?k a \<le> ?k b" by auto
  qed
  then have "js_sort ?cmp ?xs = sort_key ?k ?xs"
    by (rule js_sort_sort_key)
  moreover have "?xs = filter (\<lambda>q. status q = under_review \<and> truthy (nextReview q)
            \<and> (\<exists>t. newDate parse (nextReview q) = Valid t \<and> dayOf t < dayOf now)) qs"
    unfolding reviewQuestions_def filter_filter
    by (rule filter_cong) (auto simp: isOverdue_iff)
  ultimately show ?thesis by (simp add: overdueQuestions_def)
qed

lemma dueTodayQuestions_eq:
  "dueTodayQuestions parse now qs
     = filter (\<lambda>q. status q = under_review \<and> truthy (nextReview q)
          \<and> (\<exists>t. newDate parse (nextReview q) = Valid t \<and> dayOf t = dayOf now \<and> t \<le> now)) qs"
proof -
  have "\<And>t. t \<le> now \<Longrightarrow> \<not> dayOf t < dayOf now \<Longrightarrow> dayOf t = dayOf now"
    using dayOf_mono [of _ now] by fastforce
  then show ?thesis
    unfolding dueTodayQuestions_def reviewQuestions_def filter_filter
    by (intro filter_cong refl) (auto simp: isOverdue_iff isDueForReview_iff)
qed

lemma upcomingQuestions_eq:
  "upcomingQuestions parse now qs
     = sort_key (\<lambda>q. case newDate parse (nextReview q) of Invalid_Date \<Rightarrow> 0 | Valid x \<Rightarrow> x)
         (filter (\<lambda>q. status q = under_review \<and> truthy (nextReview q)
            \<and> (\<exists>t. newDate parse (nextReview q) = Valid t \<and> now < t \<and> t \<le> addDays now 3)) qs)"
proof -
  let ?xs = "filter (isUpcoming parse now) (reviewQuestions qs)"
  let ?cmp = "\<lambda>a b. num_minus (getTime (newDate parse (nextReview a)))
                               (getTime (newDate parse (nextReview b)))"
  let ?k = "\<lambda>q. case newDate parse (nextReview q) of Invalid_Date \<Rightarrow> 0 | Valid x \<Rightarrow> x"
  have valid: "\<exists>x. newDate parse (nextReview q) = Valid x" if "q \<in> set ?xs" for q
    using that by (auto simp: isUpcoming_iff)
  have "\<forall>a\<in>set ?xs. \<forall>b\<in>set ?xs. cmp_le0 (?cmp a b) \<longleftrightarrow> ?k a \<le> ?k b"
  proof (intro ballI)
    fix a b assume "a \<in> set ?xs" "b \<in> set ?xs"
    from valid [OF this(1)] valid [OF this(2)]
    show "cmp_le0 (?cmp a b) \<longleftrightarrow> ?k a \<le> ?k b" by auto
  qed
  then have "js_sort ?cmp ?xs = sort_key ?k ?xs"
    by (rule js_sort_sort_key)
  moreover have "?xs = filter (\<lambda>q. status q = under_review \<and> truthy (nextReview q)
            \<and> (\<exists>t. newDate parse (nextReview q) = Valid t \<and> now < t \<and> t \<le> addDays now 3)) qs"
    unfolding reviewQuestions_def filter_filter
    by (rule filter_cong) (auto simp: isUpcoming_iff)
  ultimately show ?thesis by (simp add: upcomingQuestions_def)
qed

lemma set_overdueQuestions:
  "set (overdueQuestions parse timeValue now qs)
     = {q \<in> set qs. status q = under_review \<and> truthy (nextReview q)
          \<and> (\<exists>t. newDate parse (nextReview q) = Valid t \<and> dayOf t < dayOf now)}"
  by (auto simp: overdueQuestions_def set_js_sort reviewQuestions_def isOverdue_iff)

lemma set_dueTodayQuestions:
  "set (dueTodayQuestions parse now qs)
     = {q \<in> set qs. status q = under_review \<and> truthy (nextReview q)
          \<and> (\<exists>t. newDate parse (nextReview q) = Valid t \<and> dayOf t = dayOf now \<and> t \<le> now)}"
proof -
  have "\<And>t. t \<le> now \<Longrightarrow> \<not> dayOf t < dayOf now \<Longrightarrow> dayOf t = dayOf now"
    using zdiv_mono1 [OF _ msPerDay_pos] by (fastforce simp: dayOf_def)
  then show ?thesis
    by (auto simp: dueTodayQuestions_def reviewQuestions_def isOverdue_iff isDueForReview_iff)
qed

lemma set_upcomingQuestions:
  "set (upcomingQuestions parse now qs)
     = {q \<in> set qs. status q = under_review \<and> truthy (nextReview q)
          \<and> (\<exists>t. newDate parse (nextReview q) = Valid t \<and> now < t \<and> t \<le> addDays now 3)}"
  by (auto simp: upcomingQuestions_def set_js_sort reviewQuestions_def isUpcoming_iff)

lemma sorted_overdueQuestions:
  "sorted_wrt (\<lambda>a b. \<exists>x y. getDaysOverdue parse timeValue now (nextReview a) = Some x
        \<and> getDaysOverdue parse timeValue now (nextReview b) = Some y \<and> y \<le> x)
     (overdueQuestions parse timeValue now qs)"
proof -
  let ?xs = "filter (\<lambda>q. isOverdue parse now (nextReview q)) (reviewQuestions qs)"
  let ?cmp = "\<lambda>a b. num_minus (getDaysOverdue parse timeValue now (nextReview b))
                               (getDaysOverdue parse timeValue now (nextReview a))"
  let ?k = "\<lambda>q. case getDaysOverdue parse timeValue now (nextReview q) of None \<Rightarrow> 0 | Some x \<Rightarrow> - x"
  have valid: "\<exists>x. getDaysOverdue parse timeValue now (nextReview q) = Some x" if "q \<in> set ?xs" for q
    using that by (auto simp: isOverdue_iff getDaysOverdue_Some)
  have "\<forall>a\<in>set ?xs. \<forall>b\<in>set ?xs. cmp_le0 (?cmp a b) \<longleftrightarrow> ?k a \<le> ?k b"
  proof (intro ballI)
    fix a b assume "a \<in> set ?xs" "b \<in> set ?xs"
    from valid [OF this(1)] valid [OF this(2)]
    show "cmp_le0 (?cmp a b) \<longleftrightarrow> ?k a \<le> ?k b" by auto
  qed
  then have "sorted_wrt (\<lambda>a b. ?k a \<le> ?k b) (js_sort ?cmp ?xs)"
    by (rule sorted_js_sort)
  then have "sorted_wrt (\<lambda>a b. \<exists>x y. getDaysOverdue parse timeValue now (nextReview a) = Some x
        \<and> getDaysOverdue parse timeValue now (nextReview b) = Some y \<and> y \<le> x) (js_sort ?cmp ?xs)"
  proof (rule sorted_wrt_mono_rel [rotated])
    fix a b assume "a \<in> set (js_sort ?cmp ?xs)" "b \<in> set (js_sort ?cmp ?xs)" "?k a \<le> ?k b"
    then have "a \<in> set ?xs" "b \<in> set ?xs" by (simp_all only: set_js_sort)
    from valid [OF this(1)] valid [OF this(2)] \<open>?k a \<le> ?k b\<close>
    show "\<exists>x y. getDaysOverdue parse timeValue now (nextReview a) = Some x
        \<and> getDaysOverdue parse timeValue now (nextReview b) = Some y \<and> y \<le> x" by auto
  qed
  then show ?thesis by (simp add: overdueQuestions_def)
qed

lemma sorted_upcomingQuestions:
  "sorted_wrt (\<lambda>a b. \<exists>x y. newDate parse (nextReview a) = Valid x
        \<and> newDate parse (nextReview b) = Valid y \<and> x \<le> y)
     (upcomingQuestions parse now qs)"
proof -
  let ?xs = "filter (isUpcoming parse now) (reviewQuestions qs)"
  let ?cmp = "\<lambda>a b. num_minus (getTime (newDate parse (nextReview a)))
                               (getTime (newDate parse (nextReview b)))"
  let ?k = "\<lambda>q. case newDate parse (nextReview q) of Invalid_Date \<Rightarrow> 0 | Valid x \<Rightarrow> x"
  have valid: "\<exists>x. newDate parse (nextReview q) = Valid x" if "q \<in> set ?xs" for q
    using that by (auto simp: isUpcoming_iff)
  have "\<forall>a\<in>set ?xs. \<forall>b\<in>set ?xs. cmp_le0 (?cmp a b) \<longleftrightarrow> ?k a \<le> ?k b"
  proof (intro ballI)
    fix a b assume "a \<in> set ?xs" "b \<in> set ?xs"
    from valid [OF this(1)] valid [OF this(2)]
    show "cmp_le0 (?cmp a b) \<longleftrightarrow> ?k a \<le> ?k b" by auto
  qed
  then have "sorted_wrt (\<lambda>a b. ?k a \<le> ?k b) (js_sort ?cmp ?xs)"
    by (rule sorted_js_sort)
  then have "sorted_wrt (\<lambda>a b. \<exists>x y. newDate parse (nextReview a) = Valid x
        \<and> newDate parse (nextReview b) = Valid y \<and> x \<le> y) (js_sort ?cmp ?xs)"
  proof (rule sorted_wrt_mono_rel [rotated])
    fix a b assume "a \<in> set (js_sort ?cmp ?xs)" "b \<in> set (js_sort ?cmp ?xs)" "?k a \<le> ?k b"
    then have "a \<in> set ?xs" "b \<in> set ?xs" by (simp_all only: set_js_sort)
    from valid [OF this(1)] valid [OF this(2)] \<open>?k a \<le> ?k b\<close>
    show "\<exists>x y. newDate parse (nextReview a) = Valid x
        \<and> newDate parse (nextReview b) = Valid y \<and> x \<le> y" by auto
  qed
  then show ?thesis by (simp add: upcomingQuestions_def)
qed

section \<open>The sample store\<close>

lemma sample_store_eq:
  "sample_store =
     \<lparr>questions =
        [\<lparr>id_q = 1, name = ''Two Sum'', category = ''Arrays'',
          leetcodeUrl = ''https://leetcode.com/problems/two-sum/'',
          leetcodeDifficulty = Some Easy, status = under_review,
          firstCompleted = Some ''2024-10-04T10:00:00.000Z'',
          lastReviewed = Some ''2024-10-04T10:00:00.000Z'',
          nextReview = Some ''2024-10-05T00:00:00.000Z'',
          reviewCount = 1, difficultyHistory = [easy], notes_q = Some []\<rparr>,
         \<lparr>id_q = 2, name = ''Valid Anagram'', category = ''Arrays'',
          leetcodeUrl = ''https://leetcode.com/problems/valid-anagram/'',
          leetcodeDifficulty = None, status = not_started,
          firstCompleted = None, lastReviewed = None, nextReview = None,
          reviewCount = 0, difficultyHistory = [], notes_q = Some ''sort both''\<rparr>],
      nextId = 3\<rparr>"
  by (simp add: sample_store_def initialize_def Math_max_0_def createQuestion_def twoSum_def
      validAnagram_def completeQuestion_def getQuestionById_def or_else_def
      calculateNextReview_def interval_at_def intervals_def startOfDay_def addDays_def
      msPerDay_def toISOString_sample_def Let_def)

lemmas sample_eval =
  initialize_def Math_max_0_def createQuestion_def updateQuestion_def deleteQuestion_def
  completeQuestion_def reviewQuestion_def resetQuestion_def getQuestionById_def spread_def
  or_else_def calculateNextReview_def interval_at_def intervals_def startOfDay_def addDays_def
  msPerDay_def toISOString_sample_def twoSum_def validAnagram_def containsDuplicate_def Let_def

section \<open>The schedule\<close>

text \<open>
  C1 (as amended). For a review count \<open>n \<ge> 0\<close> and a difficulty other than hard, the
  backend's \<^verbatim>\<open>calculateNextReview\<close> returns local midnight of the current day plus
  \<open>table[min(n, 5)]\<close> days, the table being 1, 3, 7, 14, 30, 90; for hard it returns
  local midnight of the current day plus one day, whatever the review count. Such a value
  is a local midnight. The frontend's function of the same name adds the same number of
  days to the current instant and keeps its time of day.
\<close>

theorem calculateNextReview_schedule:
  assumes "0 \<le> n" and "d \<noteq> hard"
  shows "calculateNextReview now n d
           = Valid (addDays (startOfDay now) ([1, 3, 7, 14, 30, 90] ! nat (min n 5)))
       \<and> calculateNextReview now m hard = Valid (addDays (startOfDay now) 1)
       \<and> addDays (startOfDay now) k mod msPerDay = 0
       \<and> calculateNextReview_frontend now n d
           = Valid (addDays now ([1, 3, 7, 14, 30, 90] ! nat (min n 5)))
       \<and> calculateNextReview_frontend now m hard = Valid (addDays now 1)"
proof (intro conjI)
  show "calculateNextReview now n d
          = Valid (addDays (startOfDay now) ([1, 3, 7, 14, 30, 90] ! nat (min n 5)))"
    using assms interval_at_clamped [of n]
    by (simp add: calculateNextReview_def startOfDay_addDays intervals_def)
  show "calculateNextReview now m hard = Valid (addDays (startOfDay now) 1)"
    by (simp add: calculateNextReview_def interval_at_0 startOfDay_addDays)
  show "addDays (startOfDay now) k mod msPerDay = 0"
    by (rule addDays_startOfDay_mod)
  show "calculateNextReview_frontend now n d
          = Valid (addDays now ([1, 3, 7, 14, 30, 90] ! nat (min n 5)))"
    using assms interval_at_clamped [of n]
    by (simp add: calculateNextReview_frontend_def intervals_def)
  show "calculateNextReview_frontend now m hard = Valid (addDays now 1)"
    by (simp add: calculateNextReview_frontend_def interval_at_0)
qed

text \<open>At 10:00 on day 20000, after 7 reviews rated medium and after 3 rated hard.\<close>

theorem calculateNextReview_schedule_witness:
  "(0::int) \<le> 7 \<and> medium \<noteq> hard
   \<and> calculateNextReview 1728036000000 7 medium = Valid 1735776000000
   \<and> calculateNextReview 1728036000000 3 hard = Valid 1728086400000
   \<and> calculateNextReview_frontend 1728036000000 7 medium = Valid 1735812000000"
  using calculateNextReview_schedule [of 7 medium 1728036000000 3 90]
  by (simp add: addDays_def startOfDay_def msPerDay_def)

text \<open>The claim as stated, with the result a local midnight for every function named
  \<^verbatim>\<open>calculateNextReview\<close>, fails for the frontend's: at 10:00 it returns 10:00 of the next
  day.\<close>

theorem calculateNextReview_frontend_not_midnight:
  "calculateNextReview_frontend 1728036000000 0 easy = Valid 1728122400000
   \<and> 1728122400000 mod msPerDay \<noteq> 0"
  by (simp add: calculateNextReview_frontend_def interval_at_def intervals_def addDays_def
      msPerDay_def)

section \<open>Review, completion and reset\<close>



text \<open>
  C10. For a question present in the store, whatever its status, \<^verbatim>\<open>completeQuestion\<close>
  succeeds and replaces it in its place by a question with \<^verbatim>\<open>reviewCount\<close> 1 and
  \<^verbatim>\<open>difficultyHistory\<close> the single difficulty supplied; a \<^verbatim>\<open>firstCompleted\<close> timestamp
  that was set (a non-empty string) is kept.
\<close>

theorem completeQuestion_restarts_history:
  assumes "getQuestionById i s = Some q"
  shows "\<exists>k q'. k < length (questions s) \<and> questions s ! k = q
     \<and> completeQuestion toISO now i reviewData s
          = (Inr q', s\<lparr>questions := (questions s)[k := q']\<rparr>)
     \<and> reviewCount q' = 1
     \<and> difficultyHistory q' = [r_difficulty reviewData]
     \<and> (truthy (firstCompleted q) \<longrightarrow> firstCompleted q' = firstCompleted q)"
proof -
  from assms obtain k where k: "findIndex (\<lambda>q. id_q q = i) (questions s) = Some k"
    "questions s ! k = q"
    by (auto simp: getQuestionById_Some)
  from findIndex_Some [OF k(1)] have klen: "k < length (questions s)" by simp
  obtain t where t: "calculateNextReview now 0 (r_difficulty reviewData) = Valid t"
    by (simp add: calculateNextReview_0)
  show ?thesis
    apply (rule exI [of _ k])
    using assms k klen t by (simp add: completeQuestion_def Let_def or_else_def)
qed

text \<open>The question of the sample store that is under review, with one review in its
  history, is completed again, rated medium, at 15:00 on 7 October 2024.\<close>

theorem completeQuestion_restarts_history_witness:
  "map_option status (getQuestionById 1 sample_store) = Some under_review
   \<and> map_option difficultyHistory (getQuestionById 1 sample_store) = Some [easy]
   \<and> truthy (firstCompleted (questions sample_store ! 0))
   \<and> fst (completeQuestion toISOString_sample 1728313200000 1
        \<lparr>r_difficulty = medium, r_notes = None\<rparr> sample_store)
     = Inr ((questions sample_store ! 0)
             \<lparr>lastReviewed := Some ''2024-10-07T15:00:00.000Z'',
               nextReview := Some ''2024-10-08T00:00:00.000Z'',
               reviewCount := 1,
               difficultyHistory := [medium]\<rparr>)
   \<and> firstCompleted (questions sample_store ! 0) = Some ''2024-10-04T10:00:00.000Z''"
proof -
  have g: "getQuestionById 1 sample_store = Some (questions sample_store ! 0)"
    by (simp add: sample_store_eq getQuestionById_def)
  from completeQuestion_restarts_history [OF g, of toISOString_sample 1728313200000
      "\<lparr>r_difficulty = medium, r_notes = None\<rparr>"] g
  show ?thesis
    by (simp add: sample_store_eq sample_eval)
qed

text \<open>
  C9. For a question present in the store, \<^verbatim>\<open>resetQuestion\<close> succeeds with the question
  whose status is not_started, whose three dates are cleared, whose review count is 0 and
  whose history is empty, every other field as before; a second reset of the resulting
  store returns the same question and the same store.
\<close>

theorem resetQuestion_idempotent:
  assumes "getQuestionById i s = Some q"
  shows "\<exists>q' s'. resetQuestion i s = (Inr q', s') \<and> resetQuestion i s' = (Inr q', s')
     \<and> q' = q\<lparr>status := not_started, firstCompleted := None, lastReviewed := None,
               nextReview := None, reviewCount := 0, difficultyHistory := []\<rparr>
     \<and> getQuestionById i s' = Some q'"
proof -
  from assms obtain k where k: "findIndex (\<lambda>q. id_q q = i) (questions s) = Some k"
    "questions s ! k = q"
    by (auto simp: getQuestionById_Some)
  from findIndex_Some [OF k(1)] have klen: "k < length (questions s)" and idq: "id_q q = i"
    using k(2) by auto
  let ?q' = "q\<lparr>status := not_started, firstCompleted := None, lastReviewed := None,
               nextReview := None, reviewCount := 0, difficultyHistory := []\<rparr>"
  let ?s' = "s\<lparr>questions := (questions s)[k := ?q']\<rparr>"
  have 1: "resetQuestion i s = (Inr ?q', ?s')"
    using k by (simp add: resetQuestion_def Let_def)
  have k': "findIndex (\<lambda>q. id_q q = i) (questions ?s') = Some k"
    using findIndex_update [OF k(1), of ?q'] idq by simp
  have 2: "resetQuestion i ?s' = (Inr ?q', ?s')"
    using k' klen by (simp add: resetQuestion_def Let_def)
  have 3: "getQuestionById i ?s' = Some ?q'"
    using k' klen by (simp add: getQuestionById_Some)
  from 1 2 3 show ?thesis by blast
qed

theorem resetQuestion_idempotent_witness:
  "getQuestionById 1 sample_store \<noteq> None
   \<and> fst (resetQuestion 1 sample_store)
       = Inr \<lparr>id_q = 1, name = ''Two Sum'', category = ''Arrays'',
              leetcodeUrl = ''https://leetcode.com/problems/two-sum/'',
              leetcodeDifficulty = Some Easy, status = not_started,
              firstCompleted = None, lastReviewed = None, nextReview = None,
              reviewCount = 0, difficultyHistory = [], notes_q = Some []\<rparr>
   \<and> resetQuestion 1 (snd (resetQuestion 1 sample_store)) = resetQuestion 1 sample_store"
proof -
  have g: "getQuestionById 1 sample_store = Some (questions sample_store ! 0)"
    by (simp add: sample_store_eq getQuestionById_def)
  from resetQuestion_idempotent [OF g] g
  show ?thesis
    by (auto simp: sample_store_eq)
qed

section \<open>Invariants of a created question\<close>

text \<open>
  C5. A question that \<^verbatim>\<open>createQuestion\<close> has added to the store sits at the end of the
  array. After every finite sequence of calls of create, update, complete, review and
  reset, with any ids and arguments, failed or not, the question at that place has the id
  that was assigned and its \<^verbatim>\<open>reviewCount\<close> is the length of its \<^verbatim>\<open>difficultyHistory\<close>.
\<close>

theorem reviewCount_is_history_length:
  assumes "createQuestion data s = (Inr q, s1)" and "\<forall>x\<in>set ops. keeps_places x"
  shows "length (questions s) < length (questions (run toISO ops s1))
       \<and> questions s1 ! length (questions s) = q
       \<and> id_q (questions (run toISO ops s1) ! length (questions s)) = id_q q
       \<and> reviewCount (questions (run toISO ops s1) ! length (questions s))
           = int (length (difficultyHistory (questions (run toISO ops s1) ! length (questions s))))"
proof -
  let ?k = "length (questions s)"
  from createQuestion_Inr [OF assms(1)]
  have k: "?k < length (questions s1)" and q: "questions s1 ! ?k = q"
    and rc: "reviewCount q = 0" "difficultyHistory q = []"
    by simp_all
  have "?k < length (questions (run toISO ops s1))
       \<and> (\<lambda>r. id_q r = id_q q \<and> reviewCount r = int (length (difficultyHistory r)))
            (questions (run toISO ops s1) ! ?k)"
    by (rule run_nth [OF assms(2) k]) (simp_all add: q rc spread_def)
  with q show ?thesis by simp
qed

text \<open>A question is created in the sample store, completed, reviewed twice, reset and
  completed again; it is the third of the array, with id 3.\<close>

theorem reviewCount_is_history_length_witness:
  "fst (createQuestion containsDuplicate sample_store) \<noteq> Inl DuplicateUrl
   \<and> map (\<lambda>r. (id_q r, reviewCount r, difficultyHistory r))
       (questions (run toISOString_sample
          [Complete 1728036000000 3 \<lparr>r_difficulty = medium, r_notes = None\<rparr>,
           Review 1728122400000 3 \<lparr>r_difficulty = hard, r_notes = None\<rparr>,
           Review 1728313200000 3 \<lparr>r_difficulty = easy, r_notes = Some ''hash set''\<rparr>]
          (snd (createQuestion containsDuplicate sample_store))))
     = [(1, 1, [easy]), (2, 0, []), (3, 3, [medium, hard, easy])]
   \<and> map (\<lambda>r. (id_q r, reviewCount r, difficultyHistory r))
       (questions (run toISOString_sample
          [Complete 1728036000000 3 \<lparr>r_difficulty = medium, r_notes = None\<rparr>,
           Review 1728122400000 3 \<lparr>r_difficulty = hard, r_notes = None\<rparr>,
           Reset 3,
           Complete 1728313200000 3 \<lparr>r_difficulty = easy, r_notes = None\<rparr>]
          (snd (createQuestion containsDuplicate sample_store))))
     = [(1, 1, [easy]), (2, 0, []), (3, 1, [easy])]"
proof -
  have c: "createQuestion containsDuplicate sample_store
     = (Inr (questions (snd (createQuestion containsDuplicate sample_store)) ! 2),
        snd (createQuestion containsDuplicate sample_store))"
    by (simp add: sample_store_eq sample_eval)
  have k: "\<forall>x\<in>set [Complete 1728036000000 3 \<lparr>r_difficulty = medium, r_notes = None\<rparr>,
           Review 1728122400000 3 \<lparr>r_difficulty = hard, r_notes = None\<rparr>,
           Review 1728313200000 3 \<lparr>r_difficulty = easy, r_notes = Some ''hash set''\<rparr>].
         keeps_places x"
    by simp
  from reviewCount_is_history_length [OF c k, of toISOString_sample]
  show ?thesis
    by (simp add: sample_store_eq sample_eval)
qed

text \<open>
  C6. A created question has status not_started and no \<^verbatim>\<open>nextReview\<close>. After every finite
  sequence of calls of create, update, complete, review and reset, with any ids and
  arguments, failed or not, the question at its place has the id that was assigned, and
  its \<^verbatim>\<open>nextReview\<close> is set if and only if its status is under_review or needs_attention.
\<close>

theorem nextReview_set_iff_in_review:
  assumes "createQuestion data s = (Inr q, s1)" and "\<forall>x\<in>set ops. keeps_places x"
  shows "length (questions s) < length (questions (run toISO ops s1))
       \<and> questions s1 ! length (questions s) = q
       \<and> status q = not_started \<and> nextReview q = None
       \<and> id_q (questions (run toISO ops s1) ! length (questions s)) = id_q q
       \<and> (nextReview (questions (run toISO ops s1) ! length (questions s)) \<noteq> None)
           = (status (questions (run toISO ops s1) ! length (questions s)) = under_review
              \<or> status (questions (run toISO ops s1) ! length (questions s)) = needs_attention)"
proof -
  let ?k = "length (questions s)"
  from createQuestion_Inr [OF assms(1)]
  have k: "?k < length (questions s1)" and q: "questions s1 ! ?k = q"
    and st: "status q = not_started" "nextReview q = None"
    by simp_all
  have "?k < length (questions (run toISO ops s1))
       \<and> (\<lambda>r. id_q r = id_q q
               \<and> (nextReview r \<noteq> None) = (status r = under_review \<or> status r = needs_attention))
            (questions (run toISO ops s1) ! ?k)"
    by (rule run_nth [OF assms(2) k]) (simp_all add: q st spread_def)
  with q st show ?thesis by simp
qed

text \<open>A question is created in the empty store, renamed, completed and reviewed as hard;
  then it is reset.\<close>

theorem nextReview_set_iff_in_review_witness:
  "fst (createQuestion twoSum (initialize [])) \<noteq> Inl DuplicateUrl
   \<and> map (\<lambda>r. (id_q r, status r, nextReview r))
       (questions (run toISOString_sample
          [Update 1 \<lparr>u_name = Some ''2Sum'', u_category = None, u_leetcodeUrl = None,
                     u_notes = None\<rparr>,
           Complete 1728036000000 1 \<lparr>r_difficulty = easy, r_notes = None\<rparr>,
           Review 1728122400000 1 \<lparr>r_difficulty = hard, r_notes = None\<rparr>]
          (snd (createQuestion twoSum (initialize [])))))
     = [(1, needs_attention, Some ''2024-10-06T00:00:00.000Z'')]
   \<and> map (\<lambda>r. (id_q r, status r, nextReview r))
       (questions (run toISOString_sample
          [Complete 1728036000000 1 \<lparr>r_difficulty = easy, r_notes = None\<rparr>,
           Reset 1]
          (snd (createQuestion twoSum (initialize [])))))
     = [(1, not_started, None)]"
proof -
  have c: "createQuestion twoSum (initialize [])
     = (Inr (questions (snd (createQuestion twoSum (initialize []))) ! 0),
        snd (createQuestion twoSum (initialize [])))"
    by (simp add: sample_eval)
  have k: "\<forall>x\<in>set [Update 1 \<lparr>u_name = Some ''2Sum'', u_category = None, u_leetcodeUrl = None,
                     u_notes = None\<rparr>,
           Complete 1728036000000 1 \<lparr>r_difficulty = easy, r_notes = None\<rparr>,
           Review 1728122400000 1 \<lparr>r_difficulty = hard, r_notes = None\<rparr>].
         keeps_places x"
    by simp
  from nextReview_set_iff_in_review [OF c k, of toISOString_sample]
  show ?thesis
    by (simp add: sample_eval)
qed

section \<open>Duplicate urls\<close>

text \<open>
  C7. \<^verbatim>\<open>createQuestion\<close> with the url of a question of the store fails with DuplicateUrl
  and returns the store as it was: the same questions and the same id counter.
  \<^verbatim>\<open>updateQuestion\<close> of a question present in the store with a url (a non-empty string)
  that another question, one with a different id, has, fails with DuplicateUrl and
  returns the store as it was.
\<close>

theorem duplicate_url_rejected:
  "((\<exists>q\<in>set (questions s). leetcodeUrl q = c_leetcodeUrl data) \<longrightarrow>
      createQuestion data s = (Inl DuplicateUrl, s))
   \<and> (getQuestionById i s \<noteq> None \<and> u \<noteq> [] \<and>
      (\<exists>q\<in>set (questions s). leetcodeUrl q = u \<and> id_q q \<noteq> i) \<longrightarrow>
      updateQuestion i (upd\<lparr>u_leetcodeUrl := Some u\<rparr>) s = (Inl DuplicateUrl, s))"
proof (intro conjI impI)
  assume "\<exists>q\<in>set (questions s). leetcodeUrl q = c_leetcodeUrl data"
  then have "find (\<lambda>q. leetcodeUrl q = c_leetcodeUrl data) (questions s) \<noteq> None"
    by (auto simp: find_None_iff)
  then show "createQuestion data s = (Inl DuplicateUrl, s)"
    by (auto simp: createQuestion_def)
next
  assume a: "getQuestionById i s \<noteq> None \<and> u \<noteq> [] \<and>
      (\<exists>q\<in>set (questions s). leetcodeUrl q = u \<and> id_q q \<noteq> i)"
  then obtain k where k: "findIndex (\<lambda>q. id_q q = i) (questions s) = Some k"
    by (auto simp: getQuestionById_Some)
  from a have "find (\<lambda>q. Some (leetcodeUrl q) = Some u \<and> id_q q \<noteq> i) (questions s) \<noteq> None"
    by (auto simp: find_None_iff)
  with a k show "updateQuestion i (upd\<lparr>u_leetcodeUrl := Some u\<rparr>) s = (Inl DuplicateUrl, s)"
    by (simp add: updateQuestion_def)
qed

text \<open>In the sample store: a second question with the url of the first, and the url of
  the first given to the second.\<close>

theorem duplicate_url_rejected_witness:
  "createQuestion (validAnagram\<lparr>c_leetcodeUrl := ''https://leetcode.com/problems/two-sum/''\<rparr>)
     sample_store = (Inl DuplicateUrl, sample_store)
   \<and> getQuestionById 2 sample_store \<noteq> None
   \<and> updateQuestion 2
       \<lparr>u_name = None, u_category = None,
        u_leetcodeUrl = Some ''https://leetcode.com/problems/two-sum/'', u_notes = Some ''x''\<rparr>
       sample_store = (Inl DuplicateUrl, sample_store)"
proof -
  have 1: "\<exists>q\<in>set (questions sample_store). leetcodeUrl q
      = c_leetcodeUrl (validAnagram\<lparr>c_leetcodeUrl := ''https://leetcode.com/problems/two-sum/''\<rparr>)"
    by (simp add: sample_store_eq)
  have 2: "getQuestionById 2 sample_store \<noteq> None
      \<and> ''https://leetcode.com/problems/two-sum/'' \<noteq> []
      \<and> (\<exists>q\<in>set (questions sample_store).
            leetcodeUrl q = ''https://leetcode.com/problems/two-sum/'' \<and> id_q q \<noteq> 2)"
    by (simp add: sample_store_eq getQuestionById_def)
  from duplicate_url_rejected [of sample_store
      "validAnagram\<lparr>c_leetcodeUrl := ''https://leetcode.com/problems/two-sum/''\<rparr>" 2
      "''https://leetcode.com/problems/two-sum/''"
      "\<lparr>u_name = None, u_category = None, u_leetcodeUrl = None, u_notes = Some ''x''\<rparr>"] 1 2
  show ?thesis by simp
qed

section \<open>The ids that create assigns\<close>




section \<open>The due queries\<close>

text \<open>
  C3 (as amended). \<^verbatim>\<open>getDueQuestions\<close> of the backend returns two groups, each in the
  order of the store and disjoint from the other: the questions whose review date is
  today and the overdue ones, whose review date is before today; it has no upcoming group
  and sorts nothing. The review queue of the frontend, over the questions under review
  that have a \<^verbatim>\<open>nextReview\<close>, forms three disjoint lists. The overdue list holds the
  questions with a review date before today, each as often as the queue was given it,
  in a stable order by the number that \<^verbatim>\<open>getDaysOverdue\<close> returns, descending; in a zone
  with a fixed offset to UTC that number is today minus the review date in days. The list
  due today holds, in the order given, the questions with a review date of today and a
  review instant not after now. The upcoming list holds the questions with a review
  instant after now and at most three days after now, in a stable order by review instant
  ascending. When every \<^verbatim>\<open>nextReview\<close> is a local midnight, due today is a review date of
  today and upcoming is a review date after today and at most three days after today.
\<close>

theorem due_groups:
  "due_questions (getDueQuestions parse now s)
     = filter (\<lambda>q. truthy (nextReview q) \<and> nextReview q \<noteq> Some ''0''
          \<and> (\<exists>t. newDate parse (nextReview q) = Valid t \<and> dayOf t = dayOf now)) (questions s)
   \<and> due_overdue (getDueQuestions parse now s)
     = filter (\<lambda>q. truthy (nextReview q) \<and> nextReview q \<noteq> Some ''0''
          \<and> (\<exists>t. newDate parse (nextReview q) = Valid t \<and> dayOf t < dayOf now)) (questions s)
   \<and> set (due_questions (getDueQuestions parse now s))
       \<inter> set (due_overdue (getDueQuestions parse now s)) = {}
   \<and> overdueQuestions parse timeValue now qs
     = sort_key (\<lambda>q. case getDaysOverdue parse timeValue now (nextReview q) of
                         None \<Rightarrow> 0 | Some x \<Rightarrow> - x)
         (filter (\<lambda>q. status q = under_review \<and> truthy (nextReview q)
            \<and> (\<exists>t. newDate parse (nextReview q) = Valid t \<and> dayOf t < dayOf now)) qs)
   \<and> sorted_wrt (\<lambda>a b. \<exists>x y. getDaysOverdue parse timeValue now (nextReview a) = Some x
          \<and> getDaysOverdue parse timeValue now (nextReview b) = Some y \<and> y \<le> x)
       (overdueQuestions parse timeValue now qs)
   \<and> ((\<forall>x y. timeValue x - timeValue y = x - y) \<and> truthy v \<and> newDate parse v = Valid t \<longrightarrow>
        getDaysOverdue parse timeValue now v = Some (dayOf now - dayOf t))
   \<and> dueTodayQuestions parse now qs
     = filter (\<lambda>q. status q = under_review \<and> truthy (nextReview q)
          \<and> (\<exists>t. newDate parse (nextReview q) = Valid t \<and> dayOf t = dayOf now \<and> t \<le> now)) qs
   \<and> upcomingQuestions parse now qs
     = sort_key (\<lambda>q. case newDate parse (nextReview q) of Invalid_Date \<Rightarrow> 0 | Valid x \<Rightarrow> x)
         (filter (\<lambda>q. status q = under_review \<and> truthy (nextReview q)
            \<and> (\<exists>t. newDate parse (nextReview q) = Valid t \<and> now < t \<and> t \<le> addDays now 3)) qs)
   \<and> sorted_wrt (\<lambda>a b. \<exists>x y. newDate parse (nextReview a) = Valid x
          \<and> newDate parse (nextReview b) = Valid y \<and> x \<le> y)
       (upcomingQuestions parse now qs)
   \<and> set (overdueQuestions parse timeValue now qs) \<inter> set (dueTodayQuestions parse now qs) = {}
   \<and> set (overdueQuestions parse timeValue now qs) \<inter> set (upcomingQuestions parse now qs) = {}
   \<and> set (dueTodayQuestions parse now qs) \<inter> set (upcomingQuestions parse now qs) = {}
   \<and> ((\<forall>q\<in>set qs. \<forall>t. newDate parse (nextReview q) = Valid t \<longrightarrow> t mod msPerDay = 0) \<longrightarrow>
        dueTodayQuestions parse now qs
          = filter (\<lambda>q. status q = under_review \<and> truthy (nextReview q)
               \<and> (\<exists>t. newDate parse (nextReview q) = Valid t \<and> dayOf t = dayOf now)) qs
        \<and> upcomingQuestions parse now qs
          = sort_key (\<lambda>q. case newDate parse (nextReview q) of Invalid_Date \<Rightarrow> 0 | Valid x \<Rightarrow> x)
              (filter (\<lambda>q. status q = under_review \<and> truthy (nextReview q)
                 \<and> (\<exists>t. newDate parse (nextReview q) = Valid t
                       \<and> dayOf now < dayOf t \<and> dayOf t \<le> dayOf now + 3)) qs))"
proof (intro conjI impI)
  show "due_questions (getDueQuestions parse now s)
     = filter (\<lambda>q. truthy (nextReview q) \<and> nextReview q \<noteq> Some ''0''
          \<and> (\<exists>t. newDate parse (nextReview q) = Valid t \<and> dayOf t = dayOf now)) (questions s)"
    by (rule due_questions_eq)
  show "due_overdue (getDueQuestions parse now s)
     = filter (\<lambda>q. truthy (nextReview q) \<and> nextReview q \<noteq> Some ''0''
          \<and> (\<exists>t. newDate parse (nextReview q) = Valid t \<and> dayOf t < dayOf now)) (questions s)"
    by (rule due_overdue_eq)
  show "set (due_questions (getDueQuestions parse now s))
       \<inter> set (due_overdue (getDueQuestions parse now s)) = {}"
    unfolding due_questions_eq due_overdue_eq by auto
  show "overdueQuestions parse timeValue now qs
     = sort_key (\<lambda>q. case getDaysOverdue parse timeValue now (nextReview q) of
                         None \<Rightarrow> 0 | Some x \<Rightarrow> - x)
         (filter (\<lambda>q. status q = under_review \<and> truthy (nextReview q)
            \<and> (\<exists>t. newDate parse (nextReview q) = Valid t \<and> dayOf t < dayOf now)) qs)"
    by (rule overdueQuestions_eq)
  show "sorted_wrt (\<lambda>a b. \<exists>x y. getDaysOverdue parse timeValue now (nextReview a) = Some x
          \<and> getDaysOverdue parse timeValue now (nextReview b) = Some y \<and> y \<le> x)
       (overdueQuestions parse timeValue now qs)"
    by (rule sorted_overdueQuestions)
  show "getDaysOverdue parse timeValue now v = Some (dayOf now - dayOf t)"
    if "(\<forall>x y. timeValue x - timeValue y = x - y) \<and> truthy v \<and> newDate parse v = Valid t"
    using that by (simp add: getDaysOverdue_fixed_offset)
  show "dueTodayQuestions parse now qs
     = filter (\<lambda>q. status q = under_review \<and> truthy (nextReview q)
          \<and> (\<exists>t. newDate parse (nextReview q) = Valid t \<and> dayOf t = dayOf now \<and> t \<le> now)) qs"
    by (rule dueTodayQuestions_eq)
  show "upcomingQuestions parse now qs
     = sort_key (\<lambda>q. case newDate parse (nextReview q) of Invalid_Date \<Rightarrow> 0 | Valid x \<Rightarrow> x)
         (filter (\<lambda>q. status q = under_review \<and> truthy (nextReview q)
            \<and> (\<exists>t. newDate parse (nextReview q) = Valid t \<and> now < t \<and> t \<le> addDays now 3)) qs)"
    by (rule upcomingQuestions_eq)
  show "sorted_wrt (\<lambda>a b. \<exists>x y. newDate parse (nextReview a) = Valid x
          \<and> newDate parse (nextReview b) = Valid y \<and> x \<le> y)
       (upcomingQuestions parse now qs)"
    by (rule sorted_upcomingQuestions)
  show "set (overdueQuestions parse timeValue now qs) \<inter> set (dueTodayQuestions parse now qs) = {}"
    unfolding set_overdueQuestions set_dueTodayQuestions by auto
  show "set (overdueQuestions parse timeValue now qs) \<inter> set (upcomingQuestions parse now qs) = {}"
  proof -
    have "\<not> (dayOf t < dayOf now \<and> now < t)" for t
      using dayOf_less_imp_less [of t now] by linarith
    then show ?thesis
      unfolding set_overdueQuestions set_upcomingQuestions by auto
  qed
  show "set (dueTodayQuestions parse now qs) \<inter> set (upcomingQuestions parse now qs) = {}"
    unfolding set_dueTodayQuestions set_upcomingQuestions by auto
next
  assume mid: "\<forall>q\<in>set qs. \<forall>t. newDate parse (nextReview q) = Valid t \<longrightarrow> t mod msPerDay = 0"
  show "dueTodayQuestions parse now qs
          = filter (\<lambda>q. status q = under_review \<and> truthy (nextReview q)
               \<and> (\<exists>t. newDate parse (nextReview q) = Valid t \<and> dayOf t = dayOf now)) qs"
    unfolding dueTodayQuestions_eq
    by (rule filter_cong [OF refl]) (use mid midnight_due_today [of _ now] in blast)
  have "filter (\<lambda>q. status q = under_review \<and> truthy (nextReview q)
            \<and> (\<exists>t. newDate parse (nextReview q) = Valid t \<and> now < t \<and> t \<le> addDays now 3)) qs
      = filter (\<lambda>q. status q = under_review \<and> truthy (nextReview q)
                 \<and> (\<exists>t. newDate parse (nextReview q) = Valid t
                       \<and> dayOf now < dayOf t \<and> dayOf t \<le> dayOf now + 3)) qs"
    by (rule filter_cong [OF refl]) (use mid midnight_upcoming [of _ now] in blast)
  then show "upcomingQuestions parse now qs
          = sort_key (\<lambda>q. case newDate parse (nextReview q) of Invalid_Date \<Rightarrow> 0 | Valid x \<Rightarrow> x)
              (filter (\<lambda>q. status q = under_review \<and> truthy (nextReview q)
                 \<and> (\<exists>t. newDate parse (nextReview q) = Valid t
                       \<and> dayOf now < dayOf t \<and> dayOf t \<le> dayOf now + 3)) qs)"
    unfolding upcomingQuestions_eq by simp
qed

text \<open>At 12:00 on 4 October 2024, in the zone at offset 0, on the sample questions with
  midnight review dates.\<close>

theorem due_groups_witness:
  "truthy (Some ''2024-10-03T00:00:00.000Z'')
   \<and> newDate parse_sample (Some ''2024-10-03T00:00:00.000Z'') = Valid 1727913600000
   \<and> getDaysOverdue parse_sample timeValue_sample 1728043200000
        (Some ''2024-10-03T00:00:00.000Z'') = Some 1
   \<and> getDaysOverdue parse_sample timeValue_sample 1728043200000
        (Some ''2024-10-04T00:00:00.000Z'') = Some 0
   \<and> map id_q (overdueQuestions parse_sample timeValue_sample 1728043200000
        due_sample_midnight) = [2, 1]
   \<and> map id_q (dueTodayQuestions parse_sample 1728043200000 due_sample_midnight) = [11]
   \<and> map id_q (upcomingQuestions parse_sample 1728043200000 due_sample_midnight) = [5, 10]
   \<and> map id_q (due_questions (getDueQuestions parse_sample 1728043200000
        \<lparr>questions = due_sample_midnight, nextId = 12\<rparr>)) = [11]"
proof -
  have h1: "\<forall>q\<in>set due_sample_midnight. \<forall>t.
       newDate parse_sample (nextReview q) = Valid t \<longrightarrow> t mod msPerDay = 0"
    by (simp add: due_sample_midnight_def sampleQuestion_def newDate_def parse_sample_def
        msPerDay_def)
  have h2: "truthy (Some ''2024-10-03T00:00:00.000Z'')
      \<and> newDate parse_sample (Some ''2024-10-03T00:00:00.000Z'') = Valid 1727913600000"
    by code_simp
  have h3: "\<forall>x y. timeValue_sample x - timeValue_sample y = x - y"
    by (simp add: timeValue_sample_def)
  have d: "dayOf 1728043200000 - dayOf 1727913600000 = 1"
    by (simp add: dayOf_def msPerDay_def)
  have ev: "getDaysOverdue parse_sample timeValue_sample 1728043200000
        (Some ''2024-10-04T00:00:00.000Z'') = Some 0
   \<and> map id_q (overdueQuestions parse_sample timeValue_sample 1728043200000
        due_sample_midnight) = [2, 1]
   \<and> map id_q (dueTodayQuestions parse_sample 1728043200000 due_sample_midnight) = [11]
   \<and> map id_q (upcomingQuestions parse_sample 1728043200000 due_sample_midnight) = [5, 10]
   \<and> map id_q (due_questions (getDueQuestions parse_sample 1728043200000
        \<lparr>questions = due_sample_midnight, nextId = 12\<rparr>)) = [11]"
    by code_simp
  note inst = due_groups [of parse_sample 1728043200000
      "\<lparr>questions = due_sample_midnight, nextId = 12\<rparr>" timeValue_sample due_sample_midnight
      "Some ''2024-10-03T00:00:00.000Z''" 1727913600000]
  from inst h2 h3 d
  have "getDaysOverdue parse_sample timeValue_sample 1728043200000
      (Some ''2024-10-03T00:00:00.000Z'') = Some 1"
    by simp
  moreover
  from inst h1
  have "dueTodayQuestions parse_sample 1728043200000 due_sample_midnight
          = filter (\<lambda>q. status q = under_review \<and> truthy (nextReview q)
               \<and> (\<exists>t. newDate parse_sample (nextReview q) = Valid t
                     \<and> dayOf t = dayOf 1728043200000)) due_sample_midnight"
    by blast
  ultimately show ?thesis using h2 ev by blast
qed

text \<open>The claim as stated fails for the backend's query: its overdue group is in the order
  of the store. The question one day overdue comes before the one two days overdue.\<close>

theorem getDueQuestions_overdue_not_sorted:
  "map id_q (due_overdue (getDueQuestions parse_sample 1728043200000
       \<lparr>questions = due_sample, nextId = 12\<rparr>)) = [1, 2]
   \<and> map (\<lambda>q. getDaysOverdue parse_sample timeValue_sample 1728043200000 (nextReview q))
       (due_overdue (getDueQuestions parse_sample 1728043200000
          \<lparr>questions = due_sample, nextId = 12\<rparr>)) = [Some 1, Some 2]"
  by code_simp

text \<open>
  C4 (as amended). In \<^verbatim>\<open>getDueQuestions\<close> of the backend a question is due today, or
  overdue, according to the local calendar day of its \<^verbatim>\<open>nextReview\<close> alone: it is in the
  first group exactly when that day is today and in the second exactly when it is before
  today; with a \<^verbatim>\<open>nextReview\<close> that is absent, empty, \<^verbatim>\<open>'0'\<close> or read as an Invalid Date it
  is in neither. \<^verbatim>\<open>isOverdue\<close> of the frontend depends on the calendar day alone as well;
  \<^verbatim>\<open>isDueForReview\<close> of the frontend compares instants: it holds exactly when the review
  instant is not after now. Both are false for a \<^verbatim>\<open>nextReview\<close> that is absent, empty or
  read as an Invalid Date. All of them are total: they return for every input.
\<close>

theorem classification_by_calendar_day:
  "(q \<in> set (due_questions (getDueQuestions parse now s)) \<longleftrightarrow>
      q \<in> set (questions s) \<and> truthy (nextReview q) \<and> nextReview q \<noteq> Some ''0''
      \<and> (\<exists>t. newDate parse (nextReview q) = Valid t \<and> dayOf t = dayOf now))
   \<and> (q \<in> set (due_overdue (getDueQuestions parse now s)) \<longleftrightarrow>
      q \<in> set (questions s) \<and> truthy (nextReview q) \<and> nextReview q \<noteq> Some ''0''
      \<and> (\<exists>t. newDate parse (nextReview q) = Valid t \<and> dayOf t < dayOf now))
   \<and> (\<not> truthy (nextReview q) \<or> nextReview q = Some ''0''
        \<or> newDate parse (nextReview q) = Invalid_Date \<longrightarrow>
      q \<notin> set (due_questions (getDueQuestions parse now s))
      \<and> q \<notin> set (due_overdue (getDueQuestions parse now s)))
   \<and> (isOverdue parse now v \<longleftrightarrow>
      truthy v \<and> (\<exists>t. newDate parse v = Valid t \<and> dayOf t < dayOf now))
   \<and> (isDueForReview parse now v \<longleftrightarrow>
      truthy v \<and> (\<exists>t. newDate parse v = Valid t \<and> t \<le> now))
   \<and> (\<not> truthy v \<or> newDate parse v = Invalid_Date \<longrightarrow>
      \<not> isOverdue parse now v \<and> \<not> isDueForReview parse now v)"
proof (intro conjI)
  show 1: "q \<in> set (due_questions (getDueQuestions parse now s)) \<longleftrightarrow>
      q \<in> set (questions s) \<and> truthy (nextReview q) \<and> nextReview q \<noteq> Some ''0''
      \<and> (\<exists>t. newDate parse (nextReview q) = Valid t \<and> dayOf t = dayOf now)"
    by (simp add: due_questions_eq)
  show 2: "q \<in> set (due_overdue (getDueQuestions parse now s)) \<longleftrightarrow>
      q \<in> set (questions s) \<and> truthy (nextReview q) \<and> nextReview q \<noteq> Some ''0''
      \<and> (\<exists>t. newDate parse (nextReview q) = Valid t \<and> dayOf t < dayOf now)"
    by (simp add: due_overdue_eq)
  show "\<not> truthy (nextReview q) \<or> nextReview q = Some ''0''
        \<or> newDate parse (nextReview q) = Invalid_Date \<longrightarrow>
      q \<notin> set (due_questions (getDueQuestions parse now s))
      \<and> q \<notin> set (due_overdue (getDueQuestions parse now s))"
    unfolding 1 2 by auto
  show 3: "isOverdue parse now v \<longleftrightarrow>
      truthy v \<and> (\<exists>t. newDate parse v = Valid t \<and> dayOf t < dayOf now)"
    by (rule isOverdue_iff)
  show 4: "isDueForReview parse now v \<longleftrightarrow>
      truthy v \<and> (\<exists>t. newDate parse v = Valid t \<and> t \<le> now)"
    by (rule isDueForReview_iff)
  show "\<not> truthy v \<or> newDate parse v = Invalid_Date \<longrightarrow>
      \<not> isOverdue parse now v \<and> \<not> isDueForReview parse now v"
    unfolding 3 4 by auto
qed

text \<open>At 12:00 on 4 October 2024: the sample question with a review at 9:00 of that day is
  due today; the ones with \<^verbatim>\<open>'0'\<close> and with an unreadable string are in no group.\<close>

theorem classification_by_calendar_day_witness:
  "sampleQuestion 3 (Some ''2024-10-04T09:00:00.000Z'')
       \<in> set (due_questions (getDueQuestions parse_sample 1728043200000
            \<lparr>questions = due_sample, nextId = 12\<rparr>))
   \<and> nextReview (sampleQuestion 7 (Some ''0'')) = Some ''0''
   \<and> sampleQuestion 7 (Some ''0'')
       \<notin> set (due_questions (getDueQuestions parse_sample 1728043200000
            \<lparr>questions = due_sample, nextId = 12\<rparr>))
   \<and> sampleQuestion 7 (Some ''0'')
       \<notin> set (due_overdue (getDueQuestions parse_sample 1728043200000
            \<lparr>questions = due_sample, nextId = 12\<rparr>))
   \<and> newDate parse_sample (Some ''soon'') = Invalid_Date
   \<and> \<not> isOverdue parse_sample 1728043200000 (Some ''soon'')
   \<and> \<not> isDueForReview parse_sample 1728043200000 (Some ''soon'')
   \<and> map id_q (due_questions (getDueQuestions parse_sample 1728043200000
        \<lparr>questions = due_sample, nextId = 12\<rparr>)) = [3, 4, 11]
   \<and> map id_q (due_overdue (getDueQuestions parse_sample 1728043200000
        \<lparr>questions = due_sample, nextId = 12\<rparr>)) = [1, 2]"
proof -
  have r: "sampleQuestion 3 (Some ''2024-10-04T09:00:00.000Z'')
        \<in> set (questions \<lparr>questions = due_sample, nextId = 12\<rparr>)
      \<and> truthy (nextReview (sampleQuestion 3 (Some ''2024-10-04T09:00:00.000Z'')))
      \<and> nextReview (sampleQuestion 3 (Some ''2024-10-04T09:00:00.000Z'')) \<noteq> Some ''0''
      \<and> newDate parse_sample (nextReview (sampleQuestion 3 (Some ''2024-10-04T09:00:00.000Z'')))
          = Valid 1728032400000
      \<and> dayOf 1728032400000 = dayOf 1728043200000"
    by code_simp
  have z: "nextReview (sampleQuestion 7 (Some ''0'')) = Some ''0''"
    by (simp add: sampleQuestion_def)
  have i: "newDate parse_sample (Some ''soon'') = Invalid_Date"
    by code_simp
  have ev: "map id_q (due_questions (getDueQuestions parse_sample 1728043200000
        \<lparr>questions = due_sample, nextId = 12\<rparr>)) = [3, 4, 11]
   \<and> map id_q (due_overdue (getDueQuestions parse_sample 1728043200000
        \<lparr>questions = due_sample, nextId = 12\<rparr>)) = [1, 2]"
    by code_simp
  from classification_by_calendar_day [of "sampleQuestion 3 (Some ''2024-10-04T09:00:00.000Z'')"
      parse_sample 1728043200000 "\<lparr>questions = due_sample, nextId = 12\<rparr>" None] r
  have a: "sampleQuestion 3 (Some ''2024-10-04T09:00:00.000Z'')
       \<in> set (due_questions (getDueQuestions parse_sample 1728043200000
            \<lparr>questions = due_sample, nextId = 12\<rparr>))"
    by blast
  from classification_by_calendar_day [of "sampleQuestion 7 (Some ''0'')"
      parse_sample 1728043200000 "\<lparr>questions = due_sample, nextId = 12\<rparr>" "Some ''soon''"] z i
  have b: "sampleQuestion 7 (Some ''0'')
       \<notin> set (due_questions (getDueQuestions parse_sample 1728043200000
            \<lparr>questions = due_sample, nextId = 12\<rparr>))
     \<and> sampleQuestion 7 (Some ''0'')
       \<notin> set (due_overdue (getDueQuestions parse_sample 1728043200000
            \<lparr>questions = due_sample, nextId = 12\<rparr>))
     \<and> \<not> isOverdue parse_sample 1728043200000 (Some ''soon'')
     \<and> \<not> isDueForReview parse_sample 1728043200000 (Some ''soon'')"
    by blast
  from a b z i ev show ?thesis by blast
qed

text \<open>The claim as stated fails for \<^verbatim>\<open>isDueForReview\<close> of the frontend: at 12:00, of two
  review instants of the same day, the one at 9:00 is due and the one at 15:00 is not, and
  the review queue lists only the first as due today.\<close>

theorem isDueForReview_same_day_differs:
  "dayOf 1728032400000 = dayOf 1728054000000
   \<and> parse_sample ''2024-10-04T09:00:00.000Z'' = Valid 1728032400000
   \<and> parse_sample ''2024-10-04T15:00:00.000Z'' = Valid 1728054000000
   \<and> isDueForReview parse_sample 1728043200000 (Some ''2024-10-04T09:00:00.000Z'')
   \<and> \<not> isDueForReview parse_sample 1728043200000 (Some ''2024-10-04T15:00:00.000Z'')
   \<and> map id_q (dueTodayQuestions parse_sample 1728043200000
        [sampleQuestion 3 (Some ''2024-10-04T09:00:00.000Z''),
         sampleQuestion 4 (Some ''2024-10-04T15:00:00.000Z'')]) = [3]"
  by code_simp

end
